theory Spec2Isabelle
  imports Complex_Main "HOL-Library.AList"
begin

section \<open>JavaScript numbers\<close>

text \<open>
  The functions of \<^verbatim>\<open>src/App.jsx\<close> compute on JavaScript Numbers: IEEE-754 binary64
  values with the two infinities and NaN. A finite value is modelled by the real number
  it denotes; every arithmetic result is rounded to the nearest binary64 value, ties to
  even, and overflows to an infinity. The two zeros are identified: the program never
  divides by a negative zero (the only unguarded divisor is \<^verbatim>\<open>235 + t_meas\<close>, which is
  \<open>+0\<close> whenever it is zero) and its comparisons, \<^verbatim>\<open>Math.abs\<close> and \<^verbatim>\<open>toFixed\<close> do not
  distinguish them.
\<close>

datatype jsnum = NaN | PInf | NInf | Fin real

fun blen :: "nat \<Rightarrow> nat" where
  "blen n = (if n = 0 then 0 else Suc (blen (n div 2)))"

declare blen.simps [simp del]

definition pow2 :: "int \<Rightarrow> real" where
  "pow2 e = (if 0 \<le> e then 2 ^ nat e else 1 / 2 ^ nat (- e))"

text \<open>\<open>ilog2 a\<close> is the binary exponent of a positive \<open>a\<close>: \<open>2 ^ ilog2 a \<le> a < 2 ^ (ilog2 a + 1)\<close>.\<close>

definition ilog2 :: "real \<Rightarrow> int" where
  "ilog2 a = (if 1 \<le> a then int (blen (nat \<lfloor>a\<rfloor>)) - 1
              else - int (blen (nat (\<lceil>1 / a\<rceil> - 1))))"

definition round_half_even :: "real \<Rightarrow> int" where
  "round_half_even q = (let f = \<lfloor>q\<rfloor>; r = q - of_int f in
     if r < 1 / 2 then f else if 1 / 2 < r then f + 1 else if even f then f else f + 1)"

text \<open>
  Rounding to binary64: 53 significant bits, least exponent \<open>-1074\<close> (subnormals),
  overflow at \<open>2 ^ 1024\<close>.
\<close>

definition round64 :: "real \<Rightarrow> jsnum" where
  "round64 x = (if x = 0 then Fin 0 else
     (let a = \<bar>x\<bar>;
          e = max (ilog2 a - 52) (- 1074);
          n = round_half_even (a / pow2 e);
          v = of_int n * pow2 e
      in if 2 ^ 1024 \<le> v then (if x < 0 then NInf else PInf)
         else Fin (if x < 0 then - v else v)))"

fun js_neg :: "jsnum \<Rightarrow> jsnum" where
  "js_neg NaN = NaN"
| "js_neg PInf = NInf"
| "js_neg NInf = PInf"
| "js_neg (Fin x) = Fin (- x)"

fun js_add :: "jsnum \<Rightarrow> jsnum \<Rightarrow> jsnum" where
  "js_add NaN _ = NaN"
| "js_add _ NaN = NaN"
| "js_add PInf NInf = NaN"
| "js_add NInf PInf = NaN"
| "js_add PInf _ = PInf"
| "js_add NInf _ = NInf"
| "js_add _ PInf = PInf"
| "js_add _ NInf = NInf"
| "js_add (Fin x) (Fin y) = round64 (x + y)"

definition js_sub :: "jsnum \<Rightarrow> jsnum \<Rightarrow> jsnum" where
  "js_sub a b = js_add a (js_neg b)"

text \<open>The sign of a nonzero or infinite operand; \<open>0\<close> for zero.\<close>

fun js_sign :: "jsnum \<Rightarrow> int" where
  "js_sign NaN = 0"
| "js_sign PInf = 1"
| "js_sign NInf = - 1"
| "js_sign (Fin x) = (if 0 < x then 1 else if x < 0 then - 1 else 0)"

definition signed_inf :: "int \<Rightarrow> jsnum" where
  "signed_inf s = (if 0 < s then PInf else if s < 0 then NInf else NaN)"

fun js_mul :: "jsnum \<Rightarrow> jsnum \<Rightarrow> jsnum" where
  "js_mul NaN _ = NaN"
| "js_mul _ NaN = NaN"
| "js_mul (Fin x) (Fin y) = round64 (x * y)"
| "js_mul a b = signed_inf (js_sign a * js_sign b)"

fun js_div :: "jsnum \<Rightarrow> jsnum \<Rightarrow> jsnum" where
  "js_div NaN _ = NaN"
| "js_div _ NaN = NaN"
| "js_div (Fin x) (Fin y) = (if y = 0 then signed_inf (js_sign (Fin x)) else round64 (x / y))"
| "js_div (Fin x) _ = Fin 0"
| "js_div a (Fin y) = signed_inf (js_sign a * (if y < 0 then - 1 else 1))"
| "js_div _ _ = NaN"

fun js_abs :: "jsnum \<Rightarrow> jsnum" where
  "js_abs NaN = NaN"
| "js_abs PInf = PInf"
| "js_abs NInf = PInf"
| "js_abs (Fin x) = Fin \<bar>x\<bar>"

fun js_less :: "jsnum \<Rightarrow> jsnum \<Rightarrow> bool" where
  "js_less NaN _ = False"
| "js_less _ NaN = False"
| "js_less (Fin x) (Fin y) = (x < y)"
| "js_less NInf b = (b \<noteq> NInf)"
| "js_less a PInf = (a \<noteq> PInf)"
| "js_less _ _ = False"

fun js_le :: "jsnum \<Rightarrow> jsnum \<Rightarrow> bool" where
  "js_le NaN _ = False"
| "js_le _ NaN = False"
| "js_le a b = (a = b \<or> js_less a b)"

definition isNaN :: "jsnum \<Rightarrow> bool" where
  "isNaN x = (x = NaN)"

section \<open>\<^verbatim>\<open>parseFloat\<close> and \<^verbatim>\<open>String.prototype.replace\<close>\<close>

text \<open>
  Strings are sequences of code units below 256. \<^verbatim>\<open>parseFloat\<close> skips leading white
  space, takes the longest prefix that is a \<^verbatim>\<open>StrDecimalLiteral\<close> (an optional sign, then
  \<^verbatim>\<open>Infinity\<close> or digits with an optional fraction and an optional exponent), and returns
  its value rounded to binary64, or NaN when there is no such prefix.
\<close>

definition is_ws :: "char \<Rightarrow> bool" where
  "is_ws c = ((of_char c :: nat) \<in> {9, 10, 11, 12, 13, 32, 160})"

definition is_digit :: "char \<Rightarrow> bool" where
  "is_digit c = (48 \<le> (of_char c :: nat) \<and> (of_char c :: nat) \<le> 57)"

definition digits_val :: "string \<Rightarrow> nat" where
  "digits_val ds = foldl (\<lambda>n c. 10 * n + (of_char c - 48)) 0 ds"

definition pow10 :: "int \<Rightarrow> real" where
  "pow10 e = (if 0 \<le> e then 10 ^ nat e else 1 / 10 ^ nat (- e))"

text \<open>The exponent part at the head of \<open>s\<close>, or \<open>0\<close> when \<open>s\<close> does not start with one.\<close>

definition exponent_part :: "string \<Rightarrow> int" where
  "exponent_part s = (case s of
       [] \<Rightarrow> 0
     | c # r \<Rightarrow>
         if c = CHR ''e'' \<or> c = CHR ''E'' then
           (case r of
              [] \<Rightarrow> 0
            | d # r' \<Rightarrow>
                if d = CHR ''+'' then int (digits_val (takeWhile is_digit r'))
                else if d = CHR ''-'' then - int (digits_val (takeWhile is_digit r'))
                else int (digits_val (takeWhile is_digit r)))
         else 0)"

definition parse_unsigned :: "string \<Rightarrow> jsnum" where
  "parse_unsigned s =
     (if take 8 s = ''Infinity'' then PInf
      else
        (let ip = takeWhile is_digit s;
             r1 = dropWhile is_digit s;
             fp = (case r1 of [] \<Rightarrow> [] | c # t \<Rightarrow> if c = CHR ''.'' then takeWhile is_digit t else []);
             r2 = (case r1 of [] \<Rightarrow> [] | c # t \<Rightarrow> if c = CHR ''.'' then dropWhile is_digit t else r1)
         in if ip = [] \<and> fp = [] then NaN
            else round64 ((real (digits_val ip) + real (digits_val fp) / 10 ^ length fp)
                          * pow10 (exponent_part r2))))"

definition parseFloat :: "string \<Rightarrow> jsnum" where
  "parseFloat s =
     (case dropWhile is_ws s of
        [] \<Rightarrow> NaN
      | c # r \<Rightarrow>
          if c = CHR ''-'' then js_neg (parse_unsigned r)
          else if c = CHR ''+'' then parse_unsigned r
          else parse_unsigned (c # r))"

text \<open>\<^verbatim>\<open>s.replace(a, b)\<close> with one-character strings: only the first occurrence is replaced.\<close>

fun replace_first :: "char \<Rightarrow> char \<Rightarrow> string \<Rightarrow> string" where
  "replace_first a b [] = []"
| "replace_first a b (c # cs) = (if c = a then b # cs else c # replace_first a b cs)"

section \<open>NumericFormat and DerivationEngine (\<^verbatim>\<open>App.jsx\<close>, lines 123 to 152)\<close>

text \<open>
  A field of a row is a string, or absent (\<^verbatim>\<open>undefined\<close>): \<open>None\<close>.
  \<^verbatim>\<open>parseNum = (val) => val ? parseFloat(String(val).replace(',', '.')) : 0\<close>;
  an absent field and the empty string are falsy.
\<close>

definition parseNum :: "string option \<Rightarrow> jsnum" where
  "parseNum val = (case val of
       None \<Rightarrow> Fin 0
     | Some s \<Rightarrow> if s = [] then Fin 0 else parseFloat (replace_first CHR '','' CHR ''.'' s))"

text \<open>The result \<^verbatim>\<open>null\<close> of the derivation functions is \<open>None\<close>.\<close>

definition calculateDeviation :: "string option \<Rightarrow> string option \<Rightarrow> jsnum option" where
  "calculateDeviation measured rated =
     (let m = parseNum measured; r = parseNum rated
      in if isNaN m \<or> isNaN r \<or> r = Fin 0 then None
         else Some (js_mul (js_div (js_sub m r) r) (Fin 100)))"

text \<open>
  The editor's resistance settings (\<^verbatim>\<open>resistanceSettings\<close> state, line 53): the two
  temperatures are texts typed by the user, the three names are column labels.
\<close>

record resistanceSettings =
  measuredTemp :: string
  refTemp :: string
  conn1Name :: string
  conn2Name :: string
  conn3Name :: string

definition calculateResistanceCorrection ::
    "resistanceSettings \<Rightarrow> string option \<Rightarrow> jsnum option" where
  "calculateResistanceCorrection rs measuredVal =
     (let m = parseNum measuredVal;
          t_meas = parseNum (Some (measuredTemp rs));
          t_ref = parseNum (Some (refTemp rs))
      in if isNaN m \<or> isNaN t_meas \<or> isNaN t_ref then None
         else Some (js_mul m (js_div (js_add (Fin 235) t_ref) (js_add (Fin 235) t_meas))))"

definition calculateDAR :: "string option \<Rightarrow> string option \<Rightarrow> jsnum option" where
  "calculateDAR val1m val30s =
     (let v1 = parseNum val1m; v30 = parseNum val30s
      in if v30 = Fin 0 \<or> isNaN v1 \<or> isNaN v30 then None
         else Some (js_div v1 v30))"

definition calculatePI :: "string option \<Rightarrow> string option \<Rightarrow> jsnum option" where
  "calculatePI val10m val1m =
     (let v10 = parseNum val10m; v1 = parseNum val1m
      in if v1 = Fin 0 \<or> isNaN v10 \<or> isNaN v1 then None
         else Some (js_div v10 v1))"

section \<open>ClassificationRules (lines 154 to 182)\<close>

text \<open>
  Each \<^verbatim>\<open>getStatus\<close> function returns an object with a CSS class string, an icon element
  or \<^verbatim>\<open>null\<close>, and for the polarization index a label. The object without a
  \<^verbatim>\<open>label\<close> property has \<open>label = None\<close>.
\<close>

datatype icon = CheckCircle | AlertCircle

record status =
  color :: string
  icon :: "icon option"
  label :: "string option"

definition green :: string where
  "green = ''bg-green-100 text-green-700 font-bold border-green-300 print:bg-gray-100 print:text-black print:border-gray-400''"

definition red :: string where
  "red = ''bg-red-100 text-red-700 font-bold border-red-300 print:bg-gray-200 print:text-black print:font-bold print:border-black''"

definition getStatusTTR :: "jsnum option \<Rightarrow> status" where
  "getStatusTTR deviation =
     (case deviation of
        None \<Rightarrow> \<lparr>color = ''bg-gray-50 text-gray-400 print:text-gray-400'', icon = None, label = None\<rparr>
      | Some d \<Rightarrow>
          (let absDev = js_abs d
           in if js_le absDev (Fin (1 / 2))
              then \<lparr>color = green, icon = Some CheckCircle, label = None\<rparr>
              else \<lparr>color = red, icon = Some AlertCircle, label = None\<rparr>))"

definition getStatusTG :: "string option \<Rightarrow> status" where
  "getStatusTG valStr =
     (if valStr = None \<or> valStr = Some [] then \<lparr>color = ''bg-white'', icon = None, label = None\<rparr>
      else (let val = parseNum valStr
            in if js_less val (Fin (1 / 2))
               then \<lparr>color = green, icon = Some CheckCircle, label = None\<rparr>
               else \<lparr>color = red, icon = Some AlertCircle, label = None\<rparr>))"

definition getStatusIP :: "jsnum option \<Rightarrow> status" where
  "getStatusIP piValue =
     (case piValue of
        None \<Rightarrow> \<lparr>color = ''bg-white'', icon = None, label = Some ''-''\<rparr>
      | Some p \<Rightarrow>
          if js_less (Fin 1) p
          then \<lparr>color = green, icon = Some CheckCircle, label = Some ''ACEPTABLE''\<rparr>
          else \<lparr>color = red, icon = Some AlertCircle, label = Some ''NO ACEPTABLE''\<rparr>)"

text \<open>
  The three classes of the rules table, read off the returned object: the check mark on
  green is PASS, the alert on red is FAIL, no icon is NEUTRAL.
\<close>

datatype classification = PASS | FAIL | NEUTRAL

definition classify :: "status \<Rightarrow> classification" where
  "classify st = (case icon st of
       None \<Rightarrow> NEUTRAL
     | Some CheckCircle \<Rightarrow> PASS
     | Some AlertCircle \<Rightarrow> FAIL)"

section \<open>\<^verbatim>\<open>formatNum\<close> (line 124) and \<^verbatim>\<open>Number.prototype.toFixed\<close>\<close>

definition digit_char :: "nat \<Rightarrow> char" where
  "digit_char d = char_of (48 + d)"

text \<open>The decimal representation of a natural number, without leading zeros.\<close>

fun dec :: "nat \<Rightarrow> string" where
  "dec n = (if n < 10 then [digit_char n] else dec (n div 10) @ [digit_char (n mod 10)])"

declare dec.simps [simp del]

text \<open>
  \<^verbatim>\<open>toFixed\<close> for a magnitude \<open>a < 10 ^ 21\<close> and \<open>f\<close> fraction digits: the integer \<open>n\<close>
  with \<open>n / 10 ^ f\<close> closest to \<open>a\<close> (the larger one on a tie), its digits padded with
  zeros to at least \<open>f + 1\<close> characters, and a period before the last \<open>f\<close> of them.
\<close>

definition fixed_digits :: "real \<Rightarrow> nat \<Rightarrow> string" where
  "fixed_digits a f =
     (let n = nat \<lfloor>a * 10 ^ f + 1 / 2\<rfloor>;
          m = (if n = 0 then ''0'' else dec n)
      in if f = 0 then m
         else (let m' = (if length m \<le> f then replicate (f + 1 - length m) CHR ''0'' @ m else m);
                   k = length m'
               in take (k - f) m' @ ''.'' @ drop (k - f) m'))"

datatype js_error = RangeError

text \<open>
  \<^verbatim>\<open>x.toFixed(f)\<close>: a \<^verbatim>\<open>RangeError\<close> unless \<open>0 \<le> f \<le> 100\<close>; the names of the non-finite
  values; for a magnitude of \<open>10 ^ 21\<close> or more the result of \<^verbatim>\<open>Number::toString\<close>
  (exponent notation), which is the parameter \<open>toString\<close> here.
\<close>

definition toFixed :: "(real \<Rightarrow> string) \<Rightarrow> jsnum \<Rightarrow> int \<Rightarrow> js_error + string" where
  "toFixed toString x f =
     (if f < 0 \<or> 100 < f then Inl RangeError
      else (case x of
              NaN \<Rightarrow> Inr ''NaN''
            | PInf \<Rightarrow> Inr ''Infinity''
            | NInf \<Rightarrow> Inr ''-Infinity''
            | Fin r \<Rightarrow>
                Inr ((if r < 0 then ''-'' else [])
                     @ (if 10 ^ 21 \<le> \<bar>r\<bar> then toString \<bar>r\<bar> else fixed_digits \<bar>r\<bar> (nat f)))))"

text \<open>The argument of \<^verbatim>\<open>formatNum\<close> is a Number, \<^verbatim>\<open>null\<close> or \<^verbatim>\<open>undefined\<close>.\<close>

datatype jsval = Null | Undefined | Num jsnum

text \<open>
  \<^verbatim>\<open>formatNum = (val, decimals = 3) => (val === null || val === undefined || isNaN(val))
  ? '-' : val.toFixed(decimals).replace('.', ',')\<close>. An omitted \<^verbatim>\<open>decimals\<close> is \<open>None\<close>.
\<close>

definition formatNum :: "(real \<Rightarrow> string) \<Rightarrow> jsval \<Rightarrow> int option \<Rightarrow> js_error + string" where
  "formatNum toString val decimals =
     (case val of
        Null \<Rightarrow> Inr ''-''
      | Undefined \<Rightarrow> Inr ''-''
      | Num x \<Rightarrow>
          if isNaN x then Inr ''-''
          else (case toFixed toString x (case decimals of None \<Rightarrow> 3 | Some d \<Rightarrow> d) of
                  Inl e \<Rightarrow> Inl e
                | Inr s \<Rightarrow> Inr (replace_first CHR ''.'' CHR '','' s)))"

section \<open>TapRowGenerator (\<^verbatim>\<open>tapRows\<close>, lines 94 to 100)\<close>

text \<open>A row of the tap table; the source's properties \<^verbatim>\<open>id\<close> and \<^verbatim>\<open>label\<close>.\<close>

record tap_row =
  row_id :: string
  row_label :: string

text \<open>The template literals \<^verbatim>\<open>`pos-${i}`\<close> and so on; \<open>dec\<close> renders the integer \<open>i\<close>.\<close>

definition pos_row :: "nat \<Rightarrow> tap_row" where
  "pos_row i = \<lparr>row_id = ''pos-'' @ dec i, row_label = ''+'' @ dec i\<rparr>"

definition neutral_row :: tap_row where
  "neutral_row = \<lparr>row_id = ''neutral'', row_label = ''0 (Nominal)''\<rparr>"

definition neg_row :: "nat \<Rightarrow> tap_row" where
  "neg_row i = \<lparr>row_id = ''neg-'' @ dec i, row_label = ''-'' @ dec i\<rparr>"

text \<open>\<^verbatim>\<open>for (let i = tapRange; i >= 1; i--) rows.push(...)\<close>\<close>

fun push_pos :: "nat \<Rightarrow> tap_row list \<Rightarrow> tap_row list" where
  "push_pos 0 rows = rows"
| "push_pos (Suc i) rows = push_pos i (rows @ [pos_row (Suc i)])"

text \<open>\<^verbatim>\<open>for (let i = 1; i <= tapRange; i++) rows.push(...)\<close>\<close>

function push_neg :: "nat \<Rightarrow> nat \<Rightarrow> tap_row list \<Rightarrow> tap_row list" where
  "push_neg i n rows = (if i \<le> n then push_neg (Suc i) n (rows @ [neg_row i]) else rows)"
  by pat_completeness auto
termination
  by (relation "measure (\<lambda>(i, n, rows). Suc n - i)") auto

declare push_neg.simps [simp del]

definition tapRows :: "nat \<Rightarrow> tap_row list" where
  "tapRows tapRange = push_neg 1 tapRange (push_pos tapRange [] @ [neutral_row])"

section \<open>ProjectModel: the editor's state (lines 33 to 57, 102 to 105, 358)\<close>

text \<open>
  An object with string-valued properties is an association list in insertion order;
  \<open>AList.update\<close> is the spread-then-set \<^verbatim>\<open>{...o, [k]: v}\<close>: an existing key keeps its
  place, a new key goes last.
\<close>

type_synonym obj = "(string \<times> string) list"

text \<open>
  A timestamp is kept as the instant in milliseconds: the source stores its ISO rendering
  in \<^verbatim>\<open>lastModified\<close> and the date part of it in the header's \<^verbatim>\<open>date\<close>.
\<close>

record headerInfo =
  manufacturingNumber :: string
  serialNumber :: string
  client :: string
  date :: nat

text \<open>The six pieces of state that a project and the editor share.\<close>

record sheet =
  tapRange :: nat
  data :: "(string \<times> obj) list"
  tgDeltaData :: "obj list"
  insulationData :: "obj list"
  headerInfo :: headerInfo
  resistanceSettings :: resistanceSettings

record project = sheet +
  project_id :: string
  lastModified :: nat

record editor = sheet +
  activeTab :: string
  isSaving :: bool

text \<open>\<^verbatim>\<open>onChange={(e) => setTapRange(parseInt(e.target.value))}\<close> on the select of 0 to 16.\<close>

definition setTapRange :: "nat \<Rightarrow> editor \<Rightarrow> editor" where
  "setTapRange n ed = ed\<lparr>tapRange := n\<rparr>"

text \<open>\<^verbatim>\<open>data[row.id] || {}\<close>, the view of one tap row.\<close>

definition rowData :: "(string \<times> obj) list \<Rightarrow> string \<Rightarrow> obj" where
  "rowData d rid = (case map_of d rid of None \<Rightarrow> [] | Some r \<Rightarrow> r)"

text \<open>
  \<^verbatim>\<open>setData(prev => ({ ...prev, [id]: { ...prev[id], [field]: valWithComma } }))\<close>
\<close>

definition handleInputChange :: "string \<Rightarrow> string \<Rightarrow> string \<Rightarrow> editor \<Rightarrow> editor" where
  "handleInputChange rid field val ed =
     (let valWithComma = replace_first CHR ''.'' CHR '','' val
      in ed\<lparr>data := AList.update rid
                         (AList.update field valWithComma (rowData (data ed) rid))
                         (data ed)\<rparr>)"

text \<open>The TTR and resistance tables iterate \<^verbatim>\<open>tapRows\<close> and read \<^verbatim>\<open>data\<close> by row id.\<close>

definition tapTable :: "editor \<Rightarrow> (tap_row \<times> obj) list" where
  "tapTable ed = map (\<lambda>row. (row, rowData (data ed) (row_id row))) (tapRows (tapRange ed))"

section \<open>Project creation (\<^verbatim>\<open>generateId\<close>, line 28; \<^verbatim>\<open>handleCreateProject\<close>, lines 753 to 767)\<close>

text \<open>
  \<^verbatim>\<open>generateId\<close> draws from \<^verbatim>\<open>Math.random\<close>. The generator is the sequence of the ids it
  will return and the number of draws made so far.
\<close>

record idgen =
  draws :: "nat \<Rightarrow> string"
  drawn :: nat

definition generateId :: "idgen \<Rightarrow> string \<times> idgen" where
  "generateId g = (draws g (drawn g), g\<lparr>drawn := Suc (drawn g)\<rparr>)"

text \<open>\<^verbatim>\<open>Array(k).fill(null).map(() => ({ id: generateId() }))\<close>\<close>

fun fresh_rows :: "nat \<Rightarrow> idgen \<Rightarrow> obj list \<times> idgen" where
  "fresh_rows 0 g = ([], g)"
| "fresh_rows (Suc k) g =
     (let (i, g1) = generateId g; (rows, g2) = fresh_rows k g1
      in ([(''id'', i)] # rows, g2))"

definition conexion :: "string \<Rightarrow> string" where
  "conexion k = ''Conexi'' @ [char_of (243 :: nat)] @ ''n '' @ k"

text \<open>The object literal \<^verbatim>\<open>newProject\<close>, its properties evaluated in source order.\<close>

definition newProject :: "nat \<Rightarrow> idgen \<Rightarrow> project \<times> idgen" where
  "newProject now g =
     (let (newId, g1) = generateId g;
          (tg, g2) = fresh_rows 4 g1;
          (ins, g3) = fresh_rows 6 g2
      in (\<lparr>tapRange = 5,
           data = [],
           tgDeltaData = tg,
           insulationData = ins,
           headerInfo = \<lparr>manufacturingNumber = [], serialNumber = [], client = [], date = now\<rparr>,
           resistanceSettings = \<lparr>measuredTemp = ''20'', refTemp = ''75'',
             conn1Name = conexion ''1'', conn2Name = conexion ''2'', conn3Name = conexion ''3''\<rparr>,
           project_id = newId,
           lastModified = now\<rparr>, g3))"

text \<open>
  The application: the signed-in user's uid, the open project, the id generator, and the
  log of the \<^verbatim>\<open>setDoc\<close> calls issued to the repository (uid, project id, document).
\<close>

record app =
  user :: "string option"
  activeProjectId :: "string option"
  gen :: idgen
  setDocs :: "(string \<times> string \<times> project) list"

text \<open>
  \<^verbatim>\<open>handleCreateProject\<close>: nothing without a user; otherwise the new project is written
  and, when the write succeeds (\<open>ok\<close>), becomes the open project.
\<close>

definition handleCreateProject :: "nat \<Rightarrow> bool \<Rightarrow> app \<Rightarrow> app" where
  "handleCreateProject now ok a =
     (case user a of
        None \<Rightarrow> a
      | Some uid \<Rightarrow>
          (let (p, g) = newProject now (gen a);
               a1 = a\<lparr>gen := g, setDocs := setDocs a @ [(uid, project_id p, p)]\<rparr>
           in if ok then a1\<lparr>activeProjectId := Some (project_id p)\<rparr> else a1))"

text \<open>\<^verbatim>\<open>handleUpdateProject\<close> (lines 769 to 774): one \<^verbatim>\<open>setDoc\<close> when a user is signed in.\<close>

definition handleUpdateProject :: "project \<Rightarrow> app \<Rightarrow> app" where
  "handleUpdateProject p a =
     (case user a of
        None \<Rightarrow> a
      | Some uid \<Rightarrow> a\<lparr>setDocs := setDocs a @ [(uid, project_id p, p)]\<rparr>)"

section \<open>Fixed-point rendering as the specification words it\<close>

text \<open>
  The specification's \<open>format\<close>: the number rounded to \<open>d\<close> decimal places, written as
  its integer part, a comma, and exactly \<open>d\<close> fraction digits (no comma when \<open>d = 0\<close>).
  This definition follows the specification; \<open>formatNum\<close> above follows the source.
\<close>

fun frac_digits :: "nat \<Rightarrow> nat \<Rightarrow> string" where
  "frac_digits 0 r = []"
| "frac_digits (Suc f) r = frac_digits f (r div 10) @ [digit_char (r mod 10)]"

definition fixed_point_comma :: "real \<Rightarrow> nat \<Rightarrow> string" where
  "fixed_point_comma x d =
     (let n = nat \<lfloor>\<bar>x\<bar> * 10 ^ d + 1 / 2\<rfloor>
      in (if x < 0 then ''-'' else [])
         @ dec (n div 10 ^ d)
         @ (if d = 0 then [] else '','' @ frac_digits d (n mod 10 ^ d)))"

section \<open>ProjectModel: the other handlers of the editor (lines 107 to 121, 320 to 376, 444 to 466)\<close>

text \<open>\<^verbatim>\<open>row.id === id\<close> on a row of the tangent-delta or insulation table.\<close>

definition has_id :: "string \<Rightarrow> obj \<Rightarrow> bool" where
  "has_id rid row = (map_of row ''id'' = Some rid)"

text \<open>
  \<^verbatim>\<open>setTgDeltaData(prev => prev.map(row => row.id === id ? { ...row, [field]: valFormatted } : row))\<close>,
  the period replaced in the three numeric fields only.
\<close>

definition handleTgDeltaChange :: "string \<Rightarrow> string \<Rightarrow> string \<Rightarrow> editor \<Rightarrow> editor" where
  "handleTgDeltaChange rid field val ed =
     (let valFormatted =
            (if field = ''testVoltage'' \<or> field = ''tgPercent'' \<or> field = ''capacitance''
             then replace_first CHR ''.'' CHR '','' val else val)
      in ed\<lparr>tgDeltaData :=
              map (\<lambda>row. if has_id rid row then AList.update field valFormatted row else row)
                  (tgDeltaData ed)\<rparr>)"

text \<open>\<^verbatim>\<open>setTgDeltaData(prev => [...prev, { id: generateId() }])\<close>\<close>

definition addTgDeltaRow :: "idgen \<Rightarrow> editor \<Rightarrow> editor \<times> idgen" where
  "addTgDeltaRow g ed =
     (let (i, g1) = generateId g
      in (ed\<lparr>tgDeltaData := tgDeltaData ed @ [[(''id'', i)]]\<rparr>, g1))"

text \<open>
  \<^verbatim>\<open>if (confirm(...)) setTgDeltaData(prev => prev.filter(row => row.id !== id))\<close>;
  \<open>confirmed\<close> is the answer given to the dialog.
\<close>

definition removeTgDeltaRow :: "string \<Rightarrow> bool \<Rightarrow> editor \<Rightarrow> editor" where
  "removeTgDeltaRow rid confirmed ed =
     (if confirmed
      then ed\<lparr>tgDeltaData := filter (\<lambda>row. \<not> has_id rid row) (tgDeltaData ed)\<rparr>
      else ed)"

definition numericFields :: "string list" where
  "numericFields = [''val30s'', ''val1m'', ''val2m'', ''val3m'', ''val4m'', ''val5m'',
                    ''val6m'', ''val7m'', ''val8m'', ''val9m'', ''val10m'']"

definition handleInsulationChange :: "string \<Rightarrow> string \<Rightarrow> string \<Rightarrow> editor \<Rightarrow> editor" where
  "handleInsulationChange rid field val ed =
     (let valFormatted =
            (if field \<in> set numericFields then replace_first CHR ''.'' CHR '','' val else val)
      in ed\<lparr>insulationData :=
              map (\<lambda>row. if has_id rid row then AList.update field valFormatted row else row)
                  (insulationData ed)\<rparr>)"

definition addInsulationRow :: "idgen \<Rightarrow> editor \<Rightarrow> editor \<times> idgen" where
  "addInsulationRow g ed =
     (let (i, g1) = generateId g
      in (ed\<lparr>insulationData := insulationData ed @ [[(''id'', i)]]\<rparr>, g1))"

definition removeInsulationRow :: "string \<Rightarrow> bool \<Rightarrow> editor \<Rightarrow> editor" where
  "removeInsulationRow rid confirmed ed =
     (if confirmed
      then ed\<lparr>insulationData := filter (\<lambda>row. \<not> has_id rid row) (insulationData ed)\<rparr>
      else ed)"

text \<open>The state setters that the inputs of the header, the tabs and the settings call.\<close>

definition setActiveTab :: "string \<Rightarrow> editor \<Rightarrow> editor" where
  "setActiveTab tab ed = ed\<lparr>activeTab := tab\<rparr>"

definition setHeaderInfo :: "headerInfo \<Rightarrow> editor \<Rightarrow> editor" where
  "setHeaderInfo h ed = ed\<lparr>headerInfo := h\<rparr>"

definition setResistanceSettings :: "resistanceSettings \<Rightarrow> editor \<Rightarrow> editor" where
  "setResistanceSettings r ed = ed\<lparr>resistanceSettings := r\<rparr>"

text \<open>
  What the user can do in the editor, one constructor for each place of the source that
  sets a piece of the editor's state: the four tab buttons (lines 367 to 376), the select
  of the tap range (358), the cells of the three tables and their add and remove buttons
  (102 to 121), the four inputs of the header (320 to 335) and the five of the resistance
  settings (444 to 466).
\<close>

datatype action =
    SetActiveTab string
  | SetTapRange nat
  | InputChange string string string
  | TgDeltaChange string string string
  | AddTgDeltaRow
  | RemoveTgDeltaRow string bool
  | InsulationChange string string string
  | AddInsulationRow
  | RemoveInsulationRow string bool
  | SetManufacturingNumber string
  | SetSerialNumber string
  | SetClient string
  | SetDate nat
  | SetMeasuredTemp string
  | SetRefTemp string
  | SetConn1Name string
  | SetConn2Name string
  | SetConn3Name string

fun perform :: "action \<Rightarrow> idgen \<Rightarrow> editor \<Rightarrow> editor \<times> idgen" where
  "perform (SetActiveTab tab) g ed = (setActiveTab tab ed, g)"
| "perform (SetTapRange n) g ed = (setTapRange n ed, g)"
| "perform (InputChange rid field val) g ed = (handleInputChange rid field val ed, g)"
| "perform (TgDeltaChange rid field val) g ed = (handleTgDeltaChange rid field val ed, g)"
| "perform AddTgDeltaRow g ed = addTgDeltaRow g ed"
| "perform (RemoveTgDeltaRow rid confirmed) g ed = (removeTgDeltaRow rid confirmed ed, g)"
| "perform (InsulationChange rid field val) g ed = (handleInsulationChange rid field val ed, g)"
| "perform AddInsulationRow g ed = addInsulationRow g ed"
| "perform (RemoveInsulationRow rid confirmed) g ed = (removeInsulationRow rid confirmed ed, g)"
| "perform (SetManufacturingNumber v) g ed =
     (setHeaderInfo ((headerInfo ed)\<lparr>manufacturingNumber := v\<rparr>) ed, g)"
| "perform (SetSerialNumber v) g ed = (setHeaderInfo ((headerInfo ed)\<lparr>serialNumber := v\<rparr>) ed, g)"
| "perform (SetClient v) g ed = (setHeaderInfo ((headerInfo ed)\<lparr>client := v\<rparr>) ed, g)"
| "perform (SetDate d) g ed = (setHeaderInfo ((headerInfo ed)\<lparr>date := d\<rparr>) ed, g)"
| "perform (SetMeasuredTemp v) g ed =
     (setResistanceSettings
        ((resistanceSettings ed)\<lparr>measuredTemp := replace_first CHR ''.'' CHR '','' v\<rparr>) ed, g)"
| "perform (SetRefTemp v) g ed =
     (setResistanceSettings
        ((resistanceSettings ed)\<lparr>refTemp := replace_first CHR ''.'' CHR '','' v\<rparr>) ed, g)"
| "perform (SetConn1Name v) g ed =
     (setResistanceSettings ((resistanceSettings ed)\<lparr>conn1Name := v\<rparr>) ed, g)"
| "perform (SetConn2Name v) g ed =
     (setResistanceSettings ((resistanceSettings ed)\<lparr>conn2Name := v\<rparr>) ed, g)"
| "perform (SetConn3Name v) g ed =
     (setResistanceSettings ((resistanceSettings ed)\<lparr>conn3Name := v\<rparr>) ed, g)"

fun perform_all :: "action list \<Rightarrow> idgen \<Rightarrow> editor \<Rightarrow> editor \<times> idgen" where
  "perform_all [] g ed = (ed, g)"
| "perform_all (a # as) g ed = (let (ed1, g1) = perform a g ed in perform_all as g1 ed1)"

section \<open>PersistenceController: the debounce effect (lines 60 to 78)\<close>

text \<open>
  \<^verbatim>\<open>{ ...project, tapRange, data, tgDeltaData, insulationData, headerInfo,
  resistanceSettings, lastModified: new Date().toISOString() }\<close>: the editor's six
  pieces of state under the id of the project that was opened.
\<close>

definition updatedProject :: "project \<Rightarrow> editor \<Rightarrow> nat \<Rightarrow> project" where
  "updatedProject p e now =
     \<lparr>tapRange = tapRange e, data = data e, tgDeltaData = tgDeltaData e,
      insulationData = insulationData e, headerInfo = headerInfo e,
      resistanceSettings = resistanceSettings e,
      project_id = project_id p, lastModified = now\<rparr>"

text \<open>
  The effect runs again after a render in which one of its six dependencies is not the
  value of the render before (\<^verbatim>\<open>Object.is\<close>). \<^verbatim>\<open>activeTab\<close> is not a dependency. The tap
  range is a number, so setting it to the value it has changes nothing. A refused
  confirmation sets no state. Every other handler builds a new object or array
  (a spread, \<^verbatim>\<open>map\<close>, \<^verbatim>\<open>filter\<close>), which is never the previous one, whatever it holds.
\<close>

fun changes_dependency :: "action \<Rightarrow> editor \<Rightarrow> bool" where
  "changes_dependency (SetActiveTab tab) ed = False"
| "changes_dependency (SetTapRange n) ed = (n \<noteq> tapRange ed)"
| "changes_dependency (RemoveTgDeltaRow rid confirmed) ed = confirmed"
| "changes_dependency (RemoveInsulationRow rid confirmed) ed = confirmed"
| "changes_dependency a ed = True"

text \<open>
  The editor of one project: the application around it, the \<^verbatim>\<open>project\<close> prop, the editor's
  state, the live timeout of the effect (the time it is due and the document its callback
  captured), the time of the last event, and whether the editor is still on the screen.
  The signed-in user does not change while the editor is open.
\<close>

record session =
  app_state :: app
  opened :: project
  editor_state :: editor
  pending :: "(nat \<times> project) option"
  clock :: nat
  mounted :: bool

text \<open>
  One run of the effect at time \<open>now\<close>. React first runs the cleanup of the previous run
  (\<^verbatim>\<open>clearTimeout\<close>), so the new timeout replaces the pending one.
\<close>

definition run_effect :: "nat \<Rightarrow> session \<Rightarrow> session" where
  "run_effect now s =
     s\<lparr>editor_state := (editor_state s)\<lparr>isSaving := True\<rparr>,
       pending := Some (now + 1000, updatedProject (opened s) (editor_state s) now)\<rparr>"

text \<open>
  The initial state of the editor (lines 33 to 57). A stored tap range of \<open>0\<close> is falsy,
  so \<^verbatim>\<open>project.tapRange || 5\<close> is \<open>5\<close>; the other five values are objects or arrays,
  which are truthy also when empty.
\<close>

definition init_editor :: "project \<Rightarrow> editor" where
  "init_editor p =
     \<lparr>tapRange = (if tapRange p = 0 then 5 else tapRange p),
      data = data p, tgDeltaData = tgDeltaData p, insulationData = insulationData p,
      headerInfo = headerInfo p, resistanceSettings = resistanceSettings p,
      activeTab = ''ttr'', isSaving = False\<rparr>"

text \<open>
  Opening project \<open>p\<close> at time \<open>now\<close> (\<^verbatim>\<open>onSelect\<close>, then the first render of the editor):
  every effect runs once after the first render, so a timeout is pending from the start.
\<close>

definition mount :: "nat \<Rightarrow> project \<Rightarrow> app \<Rightarrow> session" where
  "mount now p a =
     run_effect now
       \<lparr>app_state = a\<lparr>activeProjectId := Some (project_id p)\<rparr>, opened = p,
        editor_state = init_editor p, pending = None, clock = now, mounted = True\<rparr>"

text \<open>
  The events of an open editor, each at a time not before the last event.
  \<open>Act t a\<close>: the user does \<open>a\<close>; the handler sets the state and, when a dependency
  changed, the effect runs again in the same instant. \<open>Fire t\<close>: the browser runs the
  callback of the pending timeout, which it does not do before the timeout is due; the
  callback calls \<^verbatim>\<open>onUpdate\<close>, that is \<^verbatim>\<open>handleUpdateProject\<close>, and then clears
  \<^verbatim>\<open>isSaving\<close>. \<open>Back t\<close>: the user leaves the editor (\<^verbatim>\<open>onBack\<close>, lines 284 and 790); the
  editor is unmounted and React runs the cleanup of the effect, \<^verbatim>\<open>clearTimeout\<close>
  (line 77). An event that cannot happen in the state gives \<open>None\<close>; nothing happens in
  an editor that is no longer mounted.
\<close>

datatype event = Act nat action | Fire nat | Back nat

fun exec :: "event \<Rightarrow> session \<Rightarrow> session option" where
  "exec (Act t a) s =
     (if mounted s \<and> clock s \<le> t
      then (let (ed, g) = perform a (gen (app_state s)) (editor_state s);
                s1 = s\<lparr>clock := t, editor_state := ed, app_state := (app_state s)\<lparr>gen := g\<rparr>\<rparr>
            in Some (if changes_dependency a (editor_state s) then run_effect t s1 else s1))
      else None)"
| "exec (Fire t) s =
     (case pending s of
        None \<Rightarrow> None
      | Some (due, p) \<Rightarrow>
          if mounted s \<and> clock s \<le> t \<and> due \<le> t
          then Some (s\<lparr>clock := t, pending := None,
                       app_state := handleUpdateProject p (app_state s),
                       editor_state := (editor_state s)\<lparr>isSaving := False\<rparr>\<rparr>)
          else None)"
| "exec (Back t) s =
     (if mounted s \<and> clock s \<le> t
      then Some (s\<lparr>clock := t, pending := None, mounted := False,
                   app_state := (app_state s)\<lparr>activeProjectId := None\<rparr>\<rparr>)
      else None)"

fun run :: "event list \<Rightarrow> session \<Rightarrow> session option" where
  "run [] s = Some s"
| "run (e # es) s = (case exec e s of None \<Rightarrow> None | Some s1 \<Rightarrow> run es s1)"

text \<open>
  The times of the mutations along a run from \<open>s\<close>: the actions after which the effect
  ran again.
\<close>

fun mutation_times :: "event list \<Rightarrow> session \<Rightarrow> nat list" where
  "mutation_times [] s = []"
| "mutation_times (Act t a # es) s =
     (case exec (Act t a) s of
        None \<Rightarrow> []
      | Some s1 \<Rightarrow> (if changes_dependency a (editor_state s) then [t] else [])
                   @ mutation_times es s1)"
| "mutation_times (ev # es) s =
     (case exec ev s of None \<Rightarrow> [] | Some s1 \<Rightarrow> mutation_times es s1)"

text \<open>The actions among the events, in order.\<close>

fun acts :: "event list \<Rightarrow> action list" where
  "acts [] = []"
| "acts (Act t a # es) = a # acts es"
| "acts (ev # es) = acts es"

text \<open>The times at which the callback of a timeout ran, in order.\<close>

fun fire_times :: "event list \<Rightarrow> nat list" where
  "fire_times [] = []"
| "fire_times (Fire t # es) = t # fire_times es"
| "fire_times (ev # es) = fire_times es"

text \<open>
  A burst after a mutation at time \<open>t\<close>: every further mutation comes before the quiet
  period of 1000 ms since the one before it has elapsed.
\<close>

fun burst :: "nat \<Rightarrow> nat list \<Rightarrow> bool" where
  "burst t [] = True"
| "burst t (t1 # ts) = (t \<le> t1 \<and> t1 < t + 1000 \<and> burst t1 ts)"

text \<open>A session to run the model on: user \<open>u1\<close> opens project \<open>p1\<close> at time \<open>0\<close>.\<close>

definition example_project :: project where
  "example_project =
     \<lparr>tapRange = 5, data = [], tgDeltaData = [], insulationData = [],
      headerInfo = \<lparr>manufacturingNumber = [], serialNumber = [], client = [], date = 0\<rparr>,
      resistanceSettings = \<lparr>measuredTemp = ''20'', refTemp = ''75'',
        conn1Name = [], conn2Name = [], conn3Name = []\<rparr>,
      project_id = ''p1'', lastModified = 0\<rparr>"

definition example_app :: app where
  "example_app =
     \<lparr>user = Some ''u1'', activeProjectId = None,
      gen = \<lparr>draws = (\<lambda>k. ''x''), drawn = 0\<rparr>, setDocs = []\<rparr>"

definition example_session :: session where
  "example_session = mount 0 example_project example_app"

section \<open>The number model: binary exponent and rounding\<close>

text \<open>
  The exponent that \<open>round64\<close> computes is the binary exponent of its argument, the
  rounded value is within half a unit of the last place, and the naturals below
  \<open>2 ^ 53\<close> are not changed by rounding.
\<close>

lemma blen_bounds: "0 < n \<Longrightarrow> 2 ^ (blen n - 1) \<le> n \<and> n < 2 ^ blen n"
proof (induction n rule: blen.induct)
  case (1 n)
  show ?case
  proof (cases "n div 2 = 0")
    case True
    with "1.prems" have "n = 1" by auto
    then show ?thesis by (simp add: blen.simps)
  next
    case False
    then have pos: "0 < n div 2" by simp
    from "1.prems" have n0: "n \<noteq> 0" by simp
    from "1.IH" [OF n0 pos]
    have lo: "2 ^ (blen (n div 2) - 1) \<le> n div 2" and hi: "n div 2 < 2 ^ blen (n div 2)"
      by simp_all
    have b: "blen n = Suc (blen (n div 2))"
      using n0 by (simp add: blen.simps [of n])
    have bpos: "0 < blen (n div 2)"
      using pos by (simp add: blen.simps [of "n div 2"])
    then have "(2::nat) ^ blen (n div 2) = 2 * 2 ^ (blen (n div 2) - 1)"
      by (cases "blen (n div 2)") simp_all
    with lo have "2 ^ blen (n div 2) \<le> 2 * (n div 2)" by simp
    moreover have "2 * (n div 2) \<le> n" by simp
    ultimately have l: "2 ^ (blen n - 1) \<le> n" unfolding b by simp
    from hi have "2 * (n div 2) + 2 \<le> 2 * 2 ^ blen (n div 2)" by simp
    moreover have "n < 2 * (n div 2) + 2" by linarith
    ultimately have h: "n < 2 ^ blen n" unfolding b by simp
    from l h show ?thesis ..
  qed
qed


lemma pow2_nat: "pow2 (int k) = 2 ^ k"
  by (simp add: pow2_def)

lemma pow2_neg: "pow2 (- int k) = 1 / 2 ^ k"
  by (cases "k = 0") (simp_all add: pow2_def)

lemma blen_bounds_real:
  assumes "0 < n"
  shows "(2::real) ^ (blen n - 1) \<le> real n" and "real n + 1 \<le> 2 ^ blen n"
proof -
  from blen_bounds [OF assms] have lo: "2 ^ (blen n - 1) \<le> n" and hi: "n + 1 \<le> 2 ^ blen n"
    by simp_all
  have "(2::real) ^ (blen n - 1) = real (2 ^ (blen n - 1))" by simp
  also have "\<dots> \<le> real n" using lo by (simp only: of_nat_le_iff)
  finally show "(2::real) ^ (blen n - 1) \<le> real n" .
  have "real n + 1 = real (n + 1)" by simp
  also have "\<dots> \<le> real (2 ^ blen n)" using hi by (simp only: of_nat_le_iff)
  also have "\<dots> = 2 ^ blen n" by simp
  finally show "real n + 1 \<le> 2 ^ blen n" .
qed

lemma ilog2_bounds:
  assumes "0 < a"
  shows "pow2 (ilog2 a) \<le> a \<and> a < pow2 (ilog2 a + 1)"
proof (cases "1 \<le> a")
  case True
  define n where "n = nat \<lfloor>a\<rfloor>"
  have n: "0 < n" "real n \<le> a" "a < real n + 1"
    using True unfolding n_def by linarith+
  note bounds = blen_bounds_real [OF n(1)]
  have bpos: "0 < blen n"
    using n(1) by (simp add: blen.simps [of n])
  have il: "ilog2 a = int (blen n - 1)"
    using True bpos by (simp add: ilog2_def n_def [symmetric])
  have il1: "ilog2 a + 1 = int (blen n)"
    using bpos by (simp add: il)
  have l: "pow2 (ilog2 a) \<le> a"
    unfolding il pow2_nat using bounds(1) n(2) by linarith
  have h: "a < pow2 (ilog2 a + 1)"
    unfolding il1 pow2_nat using bounds(2) n(3) by linarith
  from l h show ?thesis ..
next
  case False
  define y where "y = 1 / a"
  define n where "n = nat (\<lceil>y\<rceil> - 1)"
  have y1: "1 < y" using False assms by (simp add: y_def)
  then have c: "2 \<le> \<lceil>y\<rceil>" by linarith
  have n: "0 < n" "real n < y" "y \<le> real n + 1"
    using c unfolding n_def by linarith+
  note bounds = blen_bounds_real [OF n(1)]
  have bpos: "0 < blen n"
    using n(1) by (simp add: blen.simps [of n])
  have a: "a = 1 / y" using assms by (simp add: y_def)
  have il: "ilog2 a = - int (blen n)"
    using False by (simp add: ilog2_def n_def y_def)
  have il1: "ilog2 a + 1 = - int (blen n - 1)"
    using bpos by (simp add: il)
  have "y \<le> 2 ^ blen n" using bounds(2) n(3) by linarith
  then have "1 / 2 ^ blen n \<le> 1 / y"
    using y1 by (intro divide_left_mono) simp_all
  moreover have "pow2 (ilog2 a) = 1 / 2 ^ blen n"
    unfolding il pow2_neg ..
  ultimately have l: "pow2 (ilog2 a) \<le> a"
    using a by linarith
  have "2 ^ (blen n - 1) < y" using bounds(1) n(2) by linarith
  then have "1 / y < 1 / 2 ^ (blen n - 1)"
    using y1 by (simp add: field_simps)
  moreover have "pow2 (ilog2 a + 1) = 1 / 2 ^ (blen n - 1)"
    unfolding il1 pow2_neg ..
  ultimately have h: "a < pow2 (ilog2 a + 1)"
    using a by linarith
  from l h show ?thesis ..
qed

lemma round_half_even_of_nat: "round_half_even (real m) = int m"
  by (simp add: round_half_even_def)

lemma round64_nat:
  assumes "n < 2 ^ 53"
  shows "round64 (real n) = Fin (real n)"
proof (cases "n = 0")
  case True
  then show ?thesis by (simp add: round64_def)
next
  case False
  then have pos: "0 < n" by simp
  from blen_bounds [OF pos] have lo: "2 ^ (blen n - 1) \<le> n" by simp
  with assms have "(2::nat) ^ (blen n - 1) < 2 ^ 53" by linarith
  then have "blen n - 1 < 53"
    by (rule power_less_imp_less_exp [rotated]) simp
  then have b: "blen n \<le> 53" by simp
  have a1: "1 \<le> real n" using pos by simp
  have il: "ilog2 (real n) = int (blen n) - 1"
    using a1 by (simp add: ilog2_def)
  define k where "k = 53 - blen n"
  have e: "max (ilog2 \<bar>real n\<bar> - 52) (- 1074) = - int k"
    using b by (simp add: il k_def)
  have q: "\<bar>real n\<bar> / pow2 (- int k) = real (n * 2 ^ k)"
    by (simp add: pow2_neg)
  have v: "real_of_int (int (n * 2 ^ k)) * pow2 (- int k) = real n"
    by (simp add: pow2_neg)
  have small: "\<not> (2 ^ 1024 \<le> real n)"
  proof -
    have "real n < real (2 ^ 53)" using assms by (rule of_nat_less_iff [THEN iffD2])
    also have "\<dots> \<le> 2 ^ 1024" by simp
    finally show ?thesis by simp
  qed
  show ?thesis
    using False small
    unfolding round64_def Let_def e q round_half_even_of_nat v
    by simp
qed

lemma round64_minus: "round64 (- x) = js_neg (round64 x)"
  by (simp add: round64_def Let_def)


lemma round_half_even_error: "\<bar>real_of_int (round_half_even q) - q\<bar> \<le> 1 / 2"
  unfolding round_half_even_def Let_def by (auto; linarith)

lemma pow2_pos: "0 < pow2 e"
  by (simp add: pow2_def)

lemma round64_error:
  assumes "round64 x = Fin v"
  shows "\<bar>v - x\<bar> \<le> pow2 (max (ilog2 \<bar>x\<bar> - 52) (- 1074)) / 2"
proof (cases "x = 0")
  case True
  with assms show ?thesis
    using pow2_pos [of "max (ilog2 \<bar>x\<bar> - 52) (- 1074)"] by (simp add: round64_def)
next
  case False
  define p where "p = pow2 (max (ilog2 \<bar>x\<bar> - 52) (- 1074))"
  define n where "n = round_half_even (\<bar>x\<bar> / p)"
  have p: "0 < p" by (simp add: p_def pow2_pos)
  have r: "round64 x =
      (if 2 ^ 1024 \<le> real_of_int n * p then (if x < 0 then NInf else PInf)
       else Fin (if x < 0 then - (real_of_int n * p) else real_of_int n * p))"
    using False unfolding round64_def Let_def p_def n_def by simp
  have v: "v = (if x < 0 then - (real_of_int n * p) else real_of_int n * p)"
    using assms unfolding r by (simp split: if_splits)
  have "\<bar>real_of_int n - \<bar>x\<bar> / p\<bar> \<le> 1 / 2"
    unfolding n_def by (rule round_half_even_error)
  then have "\<bar>real_of_int n - \<bar>x\<bar> / p\<bar> * p \<le> (1 / 2) * p"
    using p by (intro mult_right_mono) simp_all
  moreover have "\<bar>real_of_int n - \<bar>x\<bar> / p\<bar> * p = \<bar>real_of_int n * p - \<bar>x\<bar>\<bar>"
  proof -
    have "\<bar>real_of_int n - \<bar>x\<bar> / p\<bar> * p = \<bar>(real_of_int n - \<bar>x\<bar> / p) * p\<bar>"
      using p by (simp add: abs_mult)
    also have "(real_of_int n - \<bar>x\<bar> / p) * p = real_of_int n * p - \<bar>x\<bar>"
      using p by (simp add: field_simps)
    finally show ?thesis .
  qed
  ultimately have near: "\<bar>real_of_int n * p - \<bar>x\<bar>\<bar> \<le> p / 2"
    by simp
  have "\<bar>v - x\<bar> \<le> p / 2"
  proof (cases "x < 0")
    case True
    then have "v - x = - (real_of_int n * p - \<bar>x\<bar>)"
      by (simp add: v)
    then have "\<bar>v - x\<bar> = \<bar>real_of_int n * p - \<bar>x\<bar>\<bar>"
      by (simp only: abs_minus_cancel)
    with near show ?thesis by simp
  next
    case False
    then have "v - x = real_of_int n * p - \<bar>x\<bar>"
      by (simp add: v)
    with near show ?thesis by simp
  qed
  then show ?thesis
    by (simp add: p_def)
qed


section \<open>Evaluation of the number model on concrete inputs\<close>

lemmas round64_unfold = round64_def Let_def ilog2_def pow2_def round_half_even_def
lemmas parse_unfold = parseNum_def parseFloat_def parse_unsigned_def
lemmas lex_defs = is_ws_def is_digit_def digits_val_def exponent_part_def pow10_def

lemma parseNum_100_5: "parseNum (Some ''100,5'') = Fin (201 / 2)"
  unfolding parse_unfold
  apply (simp add: lex_defs)
  unfolding round64_unfold
  apply (simp add: blen.simps)
  done

lemma parseNum_100: "parseNum (Some ''100'') = Fin 100"
  unfolding parse_unfold
  apply (simp add: lex_defs)
  unfolding round64_unfold
  apply (simp add: blen.simps)
  done

lemma parseNum_101: "parseNum (Some ''101'') = Fin 101"
  unfolding parse_unfold
  apply (simp add: lex_defs)
  unfolding round64_unfold
  apply (simp add: blen.simps)
  done

lemma sub_100_5_100: "js_sub (Fin (201 / 2)) (Fin 100) = Fin (1 / 2)"
  unfolding js_sub_def
  apply simp
  unfolding round64_unfold
  apply (simp add: blen.simps)
  done

lemma div_half_100: "js_div (Fin (1 / 2)) (Fin 100) = Fin (5764607523034235 / 1152921504606846976)"
  apply simp
  unfolding round64_unfold
  apply (simp add: blen.simps)
  done

lemma mul_200th_100: "js_mul (Fin (5764607523034235 / 1152921504606846976)) (Fin 100) = Fin (1 / 2)"
  apply simp
  unfolding round64_unfold
  apply (simp add: blen.simps)
  done

lemma sub_101_100: "js_sub (Fin 101) (Fin 100) = Fin 1"
  unfolding js_sub_def
  apply simp
  unfolding round64_unfold
  apply (simp add: blen.simps)
  done

lemma div_1_100: "js_div (Fin 1) (Fin 100) = Fin (5764607523034235 / 576460752303423488)"
  apply simp
  unfolding round64_unfold
  apply (simp add: blen.simps)
  done

lemma mul_100th_100: "js_mul (Fin (5764607523034235 / 576460752303423488)) (Fin 100) = Fin 1"
  apply simp
  unfolding round64_unfold
  apply (simp add: blen.simps)
  done

lemma parseNum_int_10: "parseNum (Some ''10'') = Fin 10"
  unfolding parse_unfold
  apply (simp add: lex_defs)
  unfolding round64_unfold
  apply (simp add: blen.simps)
  done

lemma parseNum_20: "parseNum (Some ''20'') = Fin 20"
  unfolding parse_unfold
  apply (simp add: lex_defs)
  unfolding round64_unfold
  apply (simp add: blen.simps)
  done

lemma parseNum_75: "parseNum (Some ''75'') = Fin 75"
  unfolding parse_unfold
  apply (simp add: lex_defs)
  unfolding round64_unfold
  apply (simp add: blen.simps)
  done

lemma parseNum_minus_235: "parseNum (Some ''-235'') = Fin (- 235)"
  unfolding parse_unfold
  apply (simp add: lex_defs)
  unfolding round64_unfold
  apply (simp add: blen.simps)
  done

lemma parseNum_1: "parseNum (Some ''1'') = Fin 1"
  unfolding parse_unfold
  apply (simp add: lex_defs)
  unfolding round64_unfold
  apply (simp add: blen.simps)
  done

lemma parseNum_2: "parseNum (Some ''2'') = Fin 2"
  unfolding parse_unfold
  apply (simp add: lex_defs)
  unfolding round64_unfold
  apply (simp add: blen.simps)
  done

lemma parseNum_5: "parseNum (Some ''5'') = Fin 5"
  unfolding parse_unfold
  apply (simp add: lex_defs)
  unfolding round64_unfold
  apply (simp add: blen.simps)
  done

lemma parseNum_0_5: "parseNum (Some ''0,5'') = Fin (1 / 2)"
  unfolding parse_unfold
  apply (simp add: lex_defs)
  unfolding round64_unfold
  apply (simp add: blen.simps)
  done

lemma parseNum_Infinity: "parseNum (Some ''Infinity'') = PInf"
  unfolding parse_unfold by (simp add: lex_defs)

lemma parseNum_abc: "parseNum (Some ''abc'') = NaN"
  unfolding parse_unfold by (simp add: lex_defs)

lemma parseNum_blank: "parseNum None = Fin 0" "parseNum (Some []) = Fin 0"
  by (simp_all add: parseNum_def)

lemma add_235_75: "js_add (Fin 235) (Fin 75) = Fin 310"
  apply simp
  unfolding round64_unfold
  apply (simp add: blen.simps)
  done

lemma add_235_20: "js_add (Fin 235) (Fin 20) = Fin 255"
  apply simp
  unfolding round64_unfold
  apply (simp add: blen.simps)
  done

lemma add_235_minus_235: "js_add (Fin 235) (Fin (- 235)) = Fin 0"
  by (simp add: round64_def)

lemma div_310_255: "js_div (Fin 310) (Fin 255) = Fin (5474964252881779 / 4503599627370496)"
  apply simp
  unfolding round64_unfold
  apply (simp add: blen.simps)
  done

lemma mul_10_ratio: "js_mul (Fin 10) (Fin (5474964252881779 / 4503599627370496)) = Fin (427731582256389 / 35184372088832)"
  apply simp
  unfolding round64_unfold
  apply (simp add: blen.simps)
  done

lemma div_2_1: "js_div (Fin 2) (Fin 1) = Fin 2"
  apply simp
  unfolding round64_unfold
  apply (simp add: blen.simps)
  done

lemma div_5_5: "js_div (Fin 5) (Fin 5) = Fin 1"
  apply simp
  unfolding round64_unfold
  apply (simp add: blen.simps)
  done

section \<open>DerivationEngine: deviation\<close>

text \<open>
  Claim C1. \<^verbatim>\<open>calculateDeviation\<close> (the spec's \<open>deviationPercent\<close>) returns \<open>None\<close>
  exactly when the measured or the rated text is unparsable (\<^verbatim>\<open>parseNum\<close> gives NaN) or the
  rated text parses to zero, and otherwise the Number \<open>((m - r) / r) * 100\<close> computed from
  the two parsed values; on \<open>"100,5"\<close> and \<open>"100"\<close> the result is \<open>0.5\<close>, on \<open>"101"\<close> and
  \<open>"100"\<close> it is \<open>1\<close>.
\<close>

theorem calculateDeviation_spec:
  "calculateDeviation measured rated =
     (if parseNum measured = NaN \<or> parseNum rated = NaN \<or> parseNum rated = Fin 0 then None
      else Some (js_mul (js_div (js_sub (parseNum measured) (parseNum rated)) (parseNum rated))
                        (Fin 100)))
   \<and> calculateDeviation (Some ''100,5'') (Some ''100'') = Some (Fin (1 / 2))
   \<and> calculateDeviation (Some ''101'') (Some ''100'') = Some (Fin 1)"
proof -
  have general: "calculateDeviation m r =
     (if parseNum m = NaN \<or> parseNum r = NaN \<or> parseNum r = Fin 0 then None
      else Some (js_mul (js_div (js_sub (parseNum m) (parseNum r)) (parseNum r)) (Fin 100)))"
    for m r
    by (simp add: calculateDeviation_def isNaN_def Let_def)
  have a: "calculateDeviation (Some ''100,5'') (Some ''100'') = Some (Fin (1 / 2))"
    unfolding general parseNum_100_5 parseNum_100 sub_100_5_100 div_half_100 mul_200th_100
    by simp
  have b: "calculateDeviation (Some ''101'') (Some ''100'') = Some (Fin 1)"
    unfolding general parseNum_101 parseNum_100 sub_101_100 div_1_100 mul_100th_100
    by simp
  from general a b show ?thesis by blast
qed

section \<open>DerivationEngine: resistance correction, DAR, PI\<close>

text \<open>
  Claim C6. \<^verbatim>\<open>calculateResistanceCorrection\<close> (the spec's \<open>resistanceCorrected\<close>) returns
  \<open>None\<close> when the measured value, the measured temperature or the reference temperature
  is unparsable, and otherwise \<open>m * ((235 + t_ref) / (235 + t_meas))\<close> with the fixed
  constant 235. On \<open>"10"\<close> at \<open>"20"\<close> corrected to \<open>"75"\<close> the returned Number is within
  \<open>1 / 10 ^ 14\<close> of \<open>10 * 310 / 255\<close>, that is 12.157 to three decimals.
\<close>

theorem calculateResistanceCorrection_spec:
  "calculateResistanceCorrection rs measuredVal =
     (if parseNum measuredVal = NaN \<or> parseNum (Some (measuredTemp rs)) = NaN
         \<or> parseNum (Some (refTemp rs)) = NaN then None
      else Some (js_mul (parseNum measuredVal)
                   (js_div (js_add (Fin 235) (parseNum (Some (refTemp rs))))
                           (js_add (Fin 235) (parseNum (Some (measuredTemp rs)))))))
   \<and> calculateResistanceCorrection
         \<lparr>measuredTemp = ''20'', refTemp = ''75'', conn1Name = n1, conn2Name = n2, conn3Name = n3\<rparr>
         (Some ''10'') = Some (Fin (427731582256389 / 35184372088832))
   \<and> \<bar>427731582256389 / 35184372088832 - 10 * (235 + 75) / (235 + 20)\<bar> < (1 / 10 ^ 14 :: real)
   \<and> \<bar>427731582256389 / 35184372088832 - 12157 / 1000\<bar> < (1 / 2000 :: real)"
proof -
  have general: "calculateResistanceCorrection r v =
     (if parseNum v = NaN \<or> parseNum (Some (measuredTemp r)) = NaN
         \<or> parseNum (Some (refTemp r)) = NaN then None
      else Some (js_mul (parseNum v)
                   (js_div (js_add (Fin 235) (parseNum (Some (refTemp r))))
                           (js_add (Fin 235) (parseNum (Some (measuredTemp r)))))))" for r v
    by (simp add: calculateResistanceCorrection_def isNaN_def Let_def)
  have example: "calculateResistanceCorrection
         \<lparr>measuredTemp = ''20'', refTemp = ''75'', conn1Name = n1, conn2Name = n2, conn3Name = n3\<rparr>
         (Some ''10'') = Some (Fin (427731582256389 / 35184372088832))"
    unfolding general resistanceSettings.simps parseNum_int_10 parseNum_20 parseNum_75
      add_235_75 add_235_20 div_310_255 mul_10_ratio
    by simp
  have close: "\<bar>427731582256389 / 35184372088832 - 10 * (235 + 75) / (235 + 20)\<bar>
      < (1 / 10 ^ 14 :: real)"
    by simp
  have rounded: "\<bar>427731582256389 / 35184372088832 - 12157 / 1000\<bar> < (1 / 2000 :: real)"
    by simp
  from general example close rounded show ?thesis by blast
qed

text \<open>
  Claim C8. \<^verbatim>\<open>calculateDAR\<close> returns \<open>None\<close> when either reading is unparsable or the
  30-second reading parses to zero, and otherwise the quotient \<open>val1m / val30s\<close>;
  \<^verbatim>\<open>calculatePI\<close> returns \<open>None\<close> when either reading is unparsable or the one-minute
  reading parses to zero, and otherwise \<open>val10m / val1m\<close>. The ratio of \<open>"2"\<close> to \<open>"1"\<close>
  is 2 and the index of \<open>"5"\<close> to \<open>"5"\<close> is 1.
\<close>

theorem calculateDAR_calculatePI_spec:
  "calculateDAR val1m val30s =
     (if parseNum val1m = NaN \<or> parseNum val30s = NaN \<or> parseNum val30s = Fin 0 then None
      else Some (js_div (parseNum val1m) (parseNum val30s)))
   \<and> calculatePI val10m val1m' =
     (if parseNum val10m = NaN \<or> parseNum val1m' = NaN \<or> parseNum val1m' = Fin 0 then None
      else Some (js_div (parseNum val10m) (parseNum val1m')))
   \<and> calculateDAR (Some ''2'') (Some ''1'') = Some (Fin 2)
   \<and> calculatePI (Some ''5'') (Some ''5'') = Some (Fin 1)"
proof -
  have dar: "calculateDAR a b =
     (if parseNum a = NaN \<or> parseNum b = NaN \<or> parseNum b = Fin 0 then None
      else Some (js_div (parseNum a) (parseNum b)))" for a b
    by (auto simp add: calculateDAR_def isNaN_def Let_def)
  have pi: "calculatePI a b =
     (if parseNum a = NaN \<or> parseNum b = NaN \<or> parseNum b = Fin 0 then None
      else Some (js_div (parseNum a) (parseNum b)))" for a b
    by (auto simp add: calculatePI_def isNaN_def Let_def)
  have ex1: "calculateDAR (Some ''2'') (Some ''1'') = Some (Fin 2)"
    unfolding dar parseNum_2 parseNum_1 div_2_1 by simp
  have ex2: "calculatePI (Some ''5'') (Some ''5'') = Some (Fin 1)"
    unfolding pi parseNum_5 div_5_5 by simp
  from dar pi ex1 ex2 show ?thesis by blast
qed

lemma round64_not_NaN: "round64 x \<noteq> NaN"
  by (simp add: round64_def Let_def)

section \<open>DerivationEngine: what the guards cover\<close>

lemma pow2_power_int: "pow2 e = power_int 2 e"
  by (simp add: pow2_def power_int_def power_divide)

lemma pow2_mono: "e1 \<le> e2 \<Longrightarrow> pow2 e1 \<le> pow2 e2"
  unfolding pow2_power_int by (rule power_int_increasing) simp_all

lemma round_half_even_nonneg: "0 \<le> q \<Longrightarrow> 0 \<le> round_half_even q"
  unfolding round_half_even_def Let_def by (auto; linarith)

lemma round_half_even_small: "0 \<le> q \<Longrightarrow> q < 1 / 2 \<Longrightarrow> round_half_even q = 0"
proof -
  assume q: "0 \<le> q" "q < 1 / 2"
  then have "\<lfloor>q\<rfloor> = 0" by linarith
  with q show ?thesis by (simp add: round_half_even_def)
qed

text \<open>The magnitude that \<open>round64\<close> produces before the overflow test is at most twice the argument's.\<close>

lemma rounded_magnitude:
  assumes "0 < a" and "0 < p"
  shows "0 \<le> real_of_int (round_half_even (a / p)) * p"
    and "real_of_int (round_half_even (a / p)) * p \<le> 2 * a"
proof -
  have q: "0 \<le> a / p" using assms by simp
  from round_half_even_nonneg [OF q] assms
  show "0 \<le> real_of_int (round_half_even (a / p)) * p" by simp
  show "real_of_int (round_half_even (a / p)) * p \<le> 2 * a"
  proof (cases "a / p < 1 / 2")
    case True
    with q have "round_half_even (a / p) = 0" by (rule round_half_even_small)
    with assms show ?thesis by simp
  next
    case False
    have "\<bar>real_of_int (round_half_even (a / p)) - a / p\<bar> \<le> 1 / 2"
      by (rule round_half_even_error)
    with False have "real_of_int (round_half_even (a / p)) \<le> 2 * (a / p)" by linarith
    then have "real_of_int (round_half_even (a / p)) * p \<le> 2 * (a / p) * p"
      using assms by (intro mult_right_mono) simp_all
    also have "\<dots> = 2 * a" using assms by simp
    finally show ?thesis .
  qed
qed

lemma round64_cases:
  assumes "x \<noteq> 0"
  defines "p \<equiv> pow2 (max (ilog2 \<bar>x\<bar> - 52) (- 1074))"
  defines "w \<equiv> real_of_int (round_half_even (\<bar>x\<bar> / p)) * p"
  shows "round64 x = (if 2 ^ 1024 \<le> w then (if x < 0 then NInf else PInf)
                      else Fin (if x < 0 then - w else w))"
  using assms(1) unfolding round64_def Let_def p_def w_def by simp

lemma round64_finite:
  assumes "\<bar>x\<bar> < 2 ^ 1023"
  shows "\<exists>v. round64 x = Fin v \<and> \<bar>v\<bar> \<le> 2 * \<bar>x\<bar>
           \<and> \<bar>v - x\<bar> \<le> pow2 (max (ilog2 \<bar>x\<bar> - 52) (- 1074)) / 2"
proof (cases "x = 0")
  case True
  then show ?thesis
    using pow2_pos [of "max (ilog2 \<bar>x\<bar> - 52) (- 1074)"] by (simp add: round64_def)
next
  case False
  define p where "p = pow2 (max (ilog2 \<bar>x\<bar> - 52) (- 1074))"
  define w where "w = real_of_int (round_half_even (\<bar>x\<bar> / p)) * p"
  have a: "0 < \<bar>x\<bar>" using False by simp
  have p: "0 < p" by (simp add: p_def pow2_pos)
  from rounded_magnitude [OF a p] have w: "0 \<le> w" "w \<le> 2 * \<bar>x\<bar>"
    by (simp_all add: w_def)
  have "2 * \<bar>x\<bar> < 2 * 2 ^ 1023" using assms by simp
  also have "\<dots> = (2::real) ^ 1024" by simp
  finally have small: "\<not> 2 ^ 1024 \<le> w" using w(2) by linarith
  have r: "round64 x = Fin (if x < 0 then - w else w)"
    using round64_cases [OF False] small
    unfolding p_def [symmetric] w_def [symmetric] by simp
  have m: "\<bar>if x < 0 then - w else w\<bar> \<le> 2 * \<bar>x\<bar>"
    using w by (auto simp add: abs_if)
  from round64_error [OF r] r m show ?thesis
    by (simp add: p_def)
qed

lemma round64_magnitude: "round64 x = Fin v \<Longrightarrow> \<bar>v\<bar> \<le> 2 * \<bar>x\<bar>"
proof (cases "x = 0")
  case True
  assume "round64 x = Fin v"
  with True show ?thesis by (simp add: round64_def)
next
  case False
  assume r: "round64 x = Fin v"
  define p where "p = pow2 (max (ilog2 \<bar>x\<bar> - 52) (- 1074))"
  define w where "w = real_of_int (round_half_even (\<bar>x\<bar> / p)) * p"
  have a: "0 < \<bar>x\<bar>" using False by simp
  have p: "0 < p" by (simp add: p_def pow2_pos)
  from rounded_magnitude [OF a p] have w: "0 \<le> w" "w \<le> 2 * \<bar>x\<bar>"
    by (simp_all add: w_def)
  have "v = (if x < 0 then - w else w)"
    using round64_cases [OF False] r
    unfolding p_def [symmetric] w_def [symmetric] by (simp split: if_splits)
  with w show ?thesis by (auto simp add: abs_if)
qed

text \<open>From the least subnormal on, rounding at most halves the magnitude.\<close>

lemma round64_lower:
  assumes "round64 x = Fin v" and "pow2 (- 1074) \<le> \<bar>x\<bar>"
  shows "\<bar>x\<bar> \<le> 2 * \<bar>v\<bar>"
proof -
  have pos: "0 < \<bar>x\<bar>"
    using assms(2) pow2_pos [of "- 1074"] by linarith
  define e where "e = max (ilog2 \<bar>x\<bar> - 52) (- 1074)"
  have "pow2 e \<le> \<bar>x\<bar>"
  proof (cases "ilog2 \<bar>x\<bar> - 52 \<le> - 1074")
    case True
    then have "e = - 1074" by (simp add: e_def)
    with assms(2) show ?thesis by simp
  next
    case False
    then have "e = ilog2 \<bar>x\<bar> - 52" by (simp add: e_def)
    then have "pow2 e \<le> pow2 (ilog2 \<bar>x\<bar>)" by (simp add: pow2_mono)
    also have "\<dots> \<le> \<bar>x\<bar>" using ilog2_bounds [OF pos] by simp
    finally show ?thesis .
  qed
  moreover have "\<bar>v - x\<bar> \<le> pow2 e / 2"
    using round64_error [OF assms(1)] by (simp add: e_def)
  ultimately show ?thesis by linarith
qed

lemma js_div_finite:
  assumes "y \<noteq> 0" and "\<bar>x / y\<bar> < 2 ^ 1023"
  shows "\<exists>v. js_div (Fin x) (Fin y) = Fin v \<and> \<bar>v\<bar> \<le> 2 * \<bar>x / y\<bar>
           \<and> \<bar>v - x / y\<bar> \<le> pow2 (max (ilog2 \<bar>x / y\<bar> - 52) (- 1074)) / 2"
  using round64_finite [OF assms(2)] assms(1) by simp

lemma js_mul_finite:
  assumes "\<bar>x * y\<bar> < 2 ^ 1023"
  shows "\<exists>v. js_mul (Fin x) (Fin y) = Fin v \<and> \<bar>v\<bar> \<le> 2 * \<bar>x * y\<bar>"
  using round64_finite [OF assms] by auto

lemma js_add_finite:
  assumes "\<bar>x + y\<bar> < 2 ^ 1023"
  shows "\<exists>v. js_add (Fin x) (Fin y) = Fin v \<and> \<bar>v\<bar> \<le> 2 * \<bar>x + y\<bar>"
  using round64_finite [OF assms] by auto

lemma js_sub_finite:
  assumes "\<bar>x - y\<bar> < 2 ^ 1023"
  shows "\<exists>v. js_sub (Fin x) (Fin y) = Fin v \<and> \<bar>v\<bar> \<le> 2 * \<bar>x - y\<bar>"
  using js_add_finite [of x "- y"] assms by (simp add: js_sub_def)

lemma calculateDAR_finite:
  assumes "parseNum val1m = Fin a" and "parseNum val30s = Fin b" and "b \<noteq> 0"
    and "\<bar>a / b\<bar> < 2 ^ 1023"
  shows "\<exists>v. calculateDAR val1m val30s = Some (Fin v)
           \<and> \<bar>v - a / b\<bar> \<le> pow2 (max (ilog2 \<bar>a / b\<bar> - 52) (- 1074)) / 2"
  using js_div_finite [OF assms(3,4)] assms(1,2,3)
  by (auto simp add: calculateDAR_def Let_def isNaN_def)

lemma calculatePI_finite:
  assumes "parseNum val10m = Fin a" and "parseNum val1m = Fin b" and "b \<noteq> 0"
    and "\<bar>a / b\<bar> < 2 ^ 1023"
  shows "\<exists>v. calculatePI val10m val1m = Some (Fin v)
           \<and> \<bar>v - a / b\<bar> \<le> pow2 (max (ilog2 \<bar>a / b\<bar> - 52) (- 1074)) / 2"
  using js_div_finite [OF assms(3,4)] assms(1,2,3)
  by (auto simp add: calculatePI_def Let_def isNaN_def)

lemma calculateDeviation_finite:
  assumes pm: "parseNum measured = Fin m" and pr: "parseNum rated = Fin r" and r: "r \<noteq> 0"
    and sub: "\<bar>m - r\<bar> < 2 ^ 1023" and quot: "\<bar>(m - r) / r\<bar> < 2 ^ 1014"
  shows "\<exists>v. calculateDeviation measured rated = Some (Fin v) \<and> \<bar>v\<bar> \<le> 800 * \<bar>(m - r) / r\<bar>"
proof -
  define X where "X = \<bar>(m - r) / r\<bar>"
  define K where "K = (2::real) ^ 1014"
  have K: "0 < K" "(2::real) ^ 1023 = 512 * K"
    by (simp_all add: K_def)
  have X: "X < K" using quot by (simp add: X_def K_def)
  from js_sub_finite [OF sub] obtain d
    where d: "js_sub (Fin m) (Fin r) = Fin d" and db: "\<bar>d\<bar> \<le> 2 * \<bar>m - r\<bar>"
    by blast
  have "\<bar>d / r\<bar> = \<bar>d\<bar> / \<bar>r\<bar>" by simp
  also have "\<dots> \<le> (2 * \<bar>m - r\<bar>) / \<bar>r\<bar>"
    using db by (rule divide_right_mono) simp
  also have "\<dots> = 2 * X" by (simp add: X_def)
  finally have dq: "\<bar>d / r\<bar> \<le> 2 * X" .
  then have "\<bar>d / r\<bar> < 2 ^ 1023" using X K by linarith
  from js_div_finite [OF r this] obtain q
    where q: "js_div (Fin d) (Fin r) = Fin q" and qb: "\<bar>q\<bar> \<le> 2 * \<bar>d / r\<bar>"
    by blast
  have "\<bar>q * 100\<bar> = 100 * \<bar>q\<bar>" by (simp add: abs_mult)
  then have qm: "\<bar>q * 100\<bar> \<le> 400 * X" using qb dq by linarith
  then have "\<bar>q * 100\<bar> < 2 ^ 1023" using X K by linarith
  from js_mul_finite [OF this] obtain v
    where v: "js_mul (Fin q) (Fin 100) = Fin v" and vb: "\<bar>v\<bar> \<le> 2 * \<bar>q * 100\<bar>"
    by blast
  have "calculateDeviation measured rated = Some (Fin v)"
    unfolding calculateDeviation_def Let_def pm pr d q v using r by (simp add: isNaN_def)
  moreover have "\<bar>v\<bar> \<le> 800 * X" using vb qm by linarith
  ultimately show ?thesis by (auto simp add: X_def)
qed

lemma calculateResistanceCorrection_finite:
  assumes pm: "parseNum measuredVal = Fin m"
    and pt: "parseNum (Some (measuredTemp rs)) = Fin t_meas"
    and pf: "parseNum (Some (refTemp rs)) = Fin t_ref"
    and num: "\<bar>235 + t_ref\<bar> < 2 ^ 1023"
    and den: "pow2 (- 1074) \<le> \<bar>235 + t_meas\<bar>" "\<bar>235 + t_meas\<bar> < 2 ^ 1023"
    and quot: "\<bar>(235 + t_ref) / (235 + t_meas)\<bar> < 2 ^ 1020"
    and prod: "\<bar>m * ((235 + t_ref) / (235 + t_meas))\<bar> < 2 ^ 1019"
  shows "\<exists>v. calculateResistanceCorrection rs measuredVal = Some (Fin v)
           \<and> \<bar>v\<bar> \<le> 16 * \<bar>m * ((235 + t_ref) / (235 + t_meas))\<bar>"
proof -
  define A where "A = \<bar>235 + t_ref\<bar>"
  define B where "B = \<bar>235 + t_meas\<bar>"
  define K where "K = (2::real) ^ 1019"
  have K: "0 < K" "(2::real) ^ 1023 = 16 * K" "(2::real) ^ 1020 = 2 * K" "(2::real) ^ 1019 = K"
    by (simp_all add: K_def)
  have B: "0 < B" using den(1) pow2_pos [of "- 1074"] by (simp add: B_def)
  have ratio: "\<bar>(235 + t_ref) / (235 + t_meas)\<bar> = A / B"
    by (simp add: A_def B_def)
  from js_add_finite [OF num] obtain a
    where a: "js_add (Fin 235) (Fin t_ref) = Fin a" and ab: "\<bar>a\<bar> \<le> 2 * A"
    by (auto simp add: A_def)
  from js_add_finite [OF den(2)] obtain b
    where b: "js_add (Fin 235) (Fin t_meas) = Fin b"
    by blast
  then have rb: "round64 (235 + t_meas) = Fin b" by simp
  from round64_lower [OF rb den(1)] have bl: "B \<le> 2 * \<bar>b\<bar>" by (simp add: B_def)
  with B have b0: "b \<noteq> 0" by auto
  have "\<bar>a / b\<bar> = \<bar>a\<bar> / \<bar>b\<bar>" by simp
  also have "\<dots> \<le> (2 * A) / \<bar>b\<bar>"
    using ab by (rule divide_right_mono) simp
  also have "\<dots> \<le> (2 * A) / (B / 2)"
    using bl B by (intro divide_left_mono) (simp_all add: A_def)
  also have "\<dots> = 4 * (A / B)" by simp
  finally have ratio_b: "\<bar>a / b\<bar> \<le> 4 * (A / B)" .
  have AB: "A / B < 2 * K" using quot K unfolding ratio by linarith
  have "\<bar>a / b\<bar> < 2 ^ 1023" using ratio_b AB K by linarith
  from js_div_finite [OF b0 this] obtain q
    where q: "js_div (Fin a) (Fin b) = Fin q" and qb: "\<bar>q\<bar> \<le> 2 * \<bar>a / b\<bar>"
    by blast
  have qA: "\<bar>q\<bar> \<le> 8 * (A / B)" using qb ratio_b by linarith
  have "\<bar>m * q\<bar> = \<bar>m\<bar> * \<bar>q\<bar>" by (simp add: abs_mult)
  also have "\<dots> \<le> \<bar>m\<bar> * (8 * (A / B))"
    using qA by (intro mult_left_mono) simp_all
  also have "\<dots> = 8 * \<bar>m * ((235 + t_ref) / (235 + t_meas))\<bar>"
    by (simp add: abs_mult A_def B_def)
  finally have mq: "\<bar>m * q\<bar> \<le> 8 * \<bar>m * ((235 + t_ref) / (235 + t_meas))\<bar>" .
  then have "\<bar>m * q\<bar> < 2 ^ 1023" using prod K by linarith
  from js_mul_finite [OF this] obtain v
    where v: "js_mul (Fin m) (Fin q) = Fin v" and vb: "\<bar>v\<bar> \<le> 2 * \<bar>m * q\<bar>"
    by blast
  have "calculateResistanceCorrection rs measuredVal = Some (Fin v)"
    unfolding calculateResistanceCorrection_def Let_def pm pt pf a b q v by (simp add: isNaN_def)
  moreover have "\<bar>v\<bar> \<le> 16 * \<bar>m * ((235 + t_ref) / (235 + t_meas))\<bar>"
    using vb mq by linarith
  ultimately show ?thesis by blast
qed

lemma conj_skip4: "P1 \<and> P2 \<and> P3 \<and> P4 \<and> Q \<Longrightarrow> Q"
  by simp

text \<open>
  Claim C2, as amended. Deviation, DAR and PI return \<open>None\<close> exactly when an operand
  they parse is NaN or their divisor parses to zero, and the resistance correction
  returns \<open>None\<close> whenever an operand it parses is NaN; every other result is the
  binary64 value of the function's formula. With finite operands deviation, DAR and PI
  never return NaN. The result is a finite Number whenever the operands are finite, the
  divisor is not zero and the exact intermediate values stay in range (for DAR and PI:
  the exact quotient is below \<open>2 ^ 1023\<close> in magnitude, and the result is within half a
  unit of the last place of it). Outside these conditions a result can be an infinity
  or NaN.
\<close>

theorem derivation_guards:
  "(parseNum measured = NaN \<or> parseNum rated = NaN \<or> parseNum rated = Fin 0
      \<longrightarrow> calculateDeviation measured rated = None)
   \<and> (parseNum val1m = NaN \<or> parseNum val30s = NaN \<or> parseNum val30s = Fin 0
      \<longrightarrow> calculateDAR val1m val30s = None)
   \<and> (parseNum val10m = NaN \<or> parseNum val1m = NaN \<or> parseNum val1m = Fin 0
      \<longrightarrow> calculatePI val10m val1m = None)
   \<and> (parseNum measuredVal = NaN \<or> parseNum (Some (measuredTemp rs)) = NaN
        \<or> parseNum (Some (refTemp rs)) = NaN
      \<longrightarrow> calculateResistanceCorrection rs measuredVal = None)
   \<and> (parseNum measured = Fin m \<and> parseNum rated = Fin r
      \<longrightarrow> calculateDeviation measured rated \<noteq> Some NaN)
   \<and> (parseNum val1m = Fin a \<and> parseNum val30s = Fin b
      \<longrightarrow> calculateDAR val1m val30s \<noteq> Some NaN)
   \<and> (parseNum val10m = Fin c \<and> parseNum val1m = Fin d
      \<longrightarrow> calculatePI val10m val1m \<noteq> Some NaN)
   \<and> calculateDeviation measured rated =
       (if parseNum measured = NaN \<or> parseNum rated = NaN \<or> parseNum rated = Fin 0 then None
        else Some (js_mul (js_div (js_sub (parseNum measured) (parseNum rated)) (parseNum rated))
                          (Fin 100)))
   \<and> calculateDAR val1m val30s =
       (if parseNum val1m = NaN \<or> parseNum val30s = NaN \<or> parseNum val30s = Fin 0 then None
        else Some (js_div (parseNum val1m) (parseNum val30s)))
   \<and> calculatePI val10m val1m =
       (if parseNum val10m = NaN \<or> parseNum val1m = NaN \<or> parseNum val1m = Fin 0 then None
        else Some (js_div (parseNum val10m) (parseNum val1m)))
   \<and> (calculateResistanceCorrection rs measuredVal = None
        \<or> calculateResistanceCorrection rs measuredVal =
            Some (js_mul (parseNum measuredVal)
                    (js_div (js_add (Fin 235) (parseNum (Some (refTemp rs))))
                            (js_add (Fin 235) (parseNum (Some (measuredTemp rs)))))))
   \<and> (parseNum measured = Fin m \<and> parseNum rated = Fin r \<and> r \<noteq> 0
        \<and> \<bar>m - r\<bar> < 2 ^ 1023 \<and> \<bar>(m - r) / r\<bar> < 2 ^ 1014
      \<longrightarrow> (\<exists>v. calculateDeviation measured rated = Some (Fin v)
                \<and> \<bar>v\<bar> \<le> 800 * \<bar>(m - r) / r\<bar>))
   \<and> (parseNum val1m = Fin a \<and> parseNum val30s = Fin b \<and> b \<noteq> 0 \<and> \<bar>a / b\<bar> < 2 ^ 1023
      \<longrightarrow> (\<exists>v. calculateDAR val1m val30s = Some (Fin v)
                \<and> \<bar>v - a / b\<bar> \<le> pow2 (max (ilog2 \<bar>a / b\<bar> - 52) (- 1074)) / 2))
   \<and> (parseNum val10m = Fin c \<and> parseNum val1m = Fin d \<and> d \<noteq> 0 \<and> \<bar>c / d\<bar> < 2 ^ 1023
      \<longrightarrow> (\<exists>v. calculatePI val10m val1m = Some (Fin v)
                \<and> \<bar>v - c / d\<bar> \<le> pow2 (max (ilog2 \<bar>c / d\<bar> - 52) (- 1074)) / 2))
   \<and> (parseNum measuredVal = Fin mv \<and> parseNum (Some (measuredTemp rs)) = Fin t_meas
        \<and> parseNum (Some (refTemp rs)) = Fin t_ref
        \<and> \<bar>235 + t_ref\<bar> < 2 ^ 1023
        \<and> pow2 (- 1074) \<le> \<bar>235 + t_meas\<bar> \<and> \<bar>235 + t_meas\<bar> < 2 ^ 1023
        \<and> \<bar>(235 + t_ref) / (235 + t_meas)\<bar> < 2 ^ 1020
        \<and> \<bar>mv * ((235 + t_ref) / (235 + t_meas))\<bar> < 2 ^ 1019
      \<longrightarrow> (\<exists>v. calculateResistanceCorrection rs measuredVal = Some (Fin v)
                \<and> \<bar>v\<bar> \<le> 16 * \<bar>mv * ((235 + t_ref) / (235 + t_meas))\<bar>))"
proof -
  have g1: "parseNum measured = NaN \<or> parseNum rated = NaN \<or> parseNum rated = Fin 0
      \<longrightarrow> calculateDeviation measured rated = None"
    by (auto simp add: calculateDeviation_def isNaN_def Let_def)
  have g2: "parseNum val1m = NaN \<or> parseNum val30s = NaN \<or> parseNum val30s = Fin 0
      \<longrightarrow> calculateDAR val1m val30s = None"
    by (auto simp add: calculateDAR_def isNaN_def Let_def)
  have g3: "parseNum val10m = NaN \<or> parseNum val1m = NaN \<or> parseNum val1m = Fin 0
      \<longrightarrow> calculatePI val10m val1m = None"
    by (auto simp add: calculatePI_def isNaN_def Let_def)
  have g4: "parseNum measuredVal = NaN \<or> parseNum (Some (measuredTemp rs)) = NaN
        \<or> parseNum (Some (refTemp rs)) = NaN
      \<longrightarrow> calculateResistanceCorrection rs measuredVal = None"
    by (auto simp add: calculateResistanceCorrection_def isNaN_def Let_def)
  have mul100: "js_mul q (Fin 100) \<noteq> NaN" if "q \<noteq> NaN" for q
    using that by (cases q) (simp_all add: round64_not_NaN signed_inf_def)
  have divfin: "js_div p (Fin y) \<noteq> NaN" if "p \<noteq> NaN" "y \<noteq> 0" for p y
    using that by (cases p) (simp_all add: round64_not_NaN signed_inf_def)
  have n1: "parseNum measured = Fin m \<and> parseNum rated = Fin r
      \<longrightarrow> calculateDeviation measured rated \<noteq> Some NaN"
  proof (intro impI, elim conjE)
    assume pm: "parseNum measured = Fin m" and pr: "parseNum rated = Fin r"
    show "calculateDeviation measured rated \<noteq> Some NaN"
    proof (cases "r = 0")
      case True
      then show ?thesis by (simp add: calculateDeviation_def pm pr Let_def)
    next
      case False
      have "js_sub (Fin m) (Fin r) \<noteq> NaN"
        by (simp add: js_sub_def round64_not_NaN)
      then have "js_mul (js_div (js_sub (Fin m) (Fin r)) (Fin r)) (Fin 100) \<noteq> NaN"
        using False by (intro mul100 divfin)
      then show ?thesis
        by (simp add: calculateDeviation_def pm pr Let_def isNaN_def)
    qed
  qed
  have n2: "parseNum val1m = Fin a \<and> parseNum val30s = Fin b
      \<longrightarrow> calculateDAR val1m val30s \<noteq> Some NaN"
    by (simp add: calculateDAR_def Let_def isNaN_def round64_not_NaN)
  have n3: "parseNum val10m = Fin c \<and> parseNum val1m = Fin d
      \<longrightarrow> calculatePI val10m val1m \<noteq> Some NaN"
    by (simp add: calculatePI_def Let_def isNaN_def round64_not_NaN)
  have e1: "calculateDeviation measured rated =
       (if parseNum measured = NaN \<or> parseNum rated = NaN \<or> parseNum rated = Fin 0 then None
        else Some (js_mul (js_div (js_sub (parseNum measured) (parseNum rated)) (parseNum rated))
                          (Fin 100)))"
    by (simp add: calculateDeviation_def isNaN_def Let_def)
  have e2: "calculateDAR val1m val30s =
       (if parseNum val1m = NaN \<or> parseNum val30s = NaN \<or> parseNum val30s = Fin 0 then None
        else Some (js_div (parseNum val1m) (parseNum val30s)))"
    by (auto simp add: calculateDAR_def isNaN_def Let_def)
  have e3: "calculatePI val10m val1m =
       (if parseNum val10m = NaN \<or> parseNum val1m = NaN \<or> parseNum val1m = Fin 0 then None
        else Some (js_div (parseNum val10m) (parseNum val1m)))"
    by (auto simp add: calculatePI_def isNaN_def Let_def)
  have e4: "calculateResistanceCorrection rs measuredVal = None
        \<or> calculateResistanceCorrection rs measuredVal =
            Some (js_mul (parseNum measuredVal)
                    (js_div (js_add (Fin 235) (parseNum (Some (refTemp rs))))
                            (js_add (Fin 235) (parseNum (Some (measuredTemp rs))))))"
    by (simp add: calculateResistanceCorrection_def Let_def)
  have f1: "parseNum measured = Fin m \<and> parseNum rated = Fin r \<and> r \<noteq> 0
        \<and> \<bar>m - r\<bar> < 2 ^ 1023 \<and> \<bar>(m - r) / r\<bar> < 2 ^ 1014
      \<longrightarrow> (\<exists>v. calculateDeviation measured rated = Some (Fin v)
                \<and> \<bar>v\<bar> \<le> 800 * \<bar>(m - r) / r\<bar>)"
    using calculateDeviation_finite [of measured m rated r] by blast
  have f2: "parseNum val1m = Fin a \<and> parseNum val30s = Fin b \<and> b \<noteq> 0 \<and> \<bar>a / b\<bar> < 2 ^ 1023
      \<longrightarrow> (\<exists>v. calculateDAR val1m val30s = Some (Fin v)
                \<and> \<bar>v - a / b\<bar> \<le> pow2 (max (ilog2 \<bar>a / b\<bar> - 52) (- 1074)) / 2)"
    using calculateDAR_finite [of val1m a val30s b] by blast
  have f3: "parseNum val10m = Fin c \<and> parseNum val1m = Fin d \<and> d \<noteq> 0 \<and> \<bar>c / d\<bar> < 2 ^ 1023
      \<longrightarrow> (\<exists>v. calculatePI val10m val1m = Some (Fin v)
                \<and> \<bar>v - c / d\<bar> \<le> pow2 (max (ilog2 \<bar>c / d\<bar> - 52) (- 1074)) / 2)"
    using calculatePI_finite [of val10m c val1m d] by blast
  have f4: "parseNum measuredVal = Fin mv \<and> parseNum (Some (measuredTemp rs)) = Fin t_meas
        \<and> parseNum (Some (refTemp rs)) = Fin t_ref
        \<and> \<bar>235 + t_ref\<bar> < 2 ^ 1023
        \<and> pow2 (- 1074) \<le> \<bar>235 + t_meas\<bar> \<and> \<bar>235 + t_meas\<bar> < 2 ^ 1023
        \<and> \<bar>(235 + t_ref) / (235 + t_meas)\<bar> < 2 ^ 1020
        \<and> \<bar>mv * ((235 + t_ref) / (235 + t_meas))\<bar> < 2 ^ 1019
      \<longrightarrow> (\<exists>v. calculateResistanceCorrection rs measuredVal = Some (Fin v)
                \<and> \<bar>v\<bar> \<le> 16 * \<bar>mv * ((235 + t_ref) / (235 + t_meas))\<bar>)"
    using calculateResistanceCorrection_finite [of measuredVal mv rs t_meas t_ref] by blast
  show ?thesis
    by (intro conjI g1 g2 g3 g4 n1 n2 n3 e1 e2 e3 e4 f1 f2 f3 f4)
qed

theorem derivation_guards_witness:
  "calculateDeviation (Some ''abc'') (Some ''100'') = None
   \<and> calculateDeviation (Some ''101'') None = None
   \<and> calculateDAR (Some ''2'') (Some ''abc'') = None
   \<and> calculatePI (Some ''5'') (Some []) = None
   \<and> calculateResistanceCorrection
        \<lparr>measuredTemp = ''abc'', refTemp = ''75'', conn1Name = [], conn2Name = [], conn3Name = []\<rparr>
        (Some ''10'') = None
   \<and> calculateDeviation (Some ''101'') (Some ''100'') \<noteq> Some NaN
   \<and> calculateDAR (Some ''2'') (Some ''1'') \<noteq> Some NaN
   \<and> calculatePI (Some ''5'') (Some ''5'') \<noteq> Some NaN
   \<and> (\<exists>v. calculateDeviation (Some ''101'') (Some ''100'') = Some (Fin v) \<and> \<bar>v\<bar> \<le> 8)
   \<and> (\<exists>v. calculateDAR (Some ''2'') (Some ''1'') = Some (Fin v) \<and> \<bar>v - 2\<bar> \<le> 1 / 2 ^ 52)
   \<and> (\<exists>v. calculatePI (Some ''5'') (Some ''5'') = Some (Fin v) \<and> \<bar>v - 1\<bar> \<le> 1 / 2 ^ 53)
   \<and> (\<exists>v. calculateResistanceCorrection
          \<lparr>measuredTemp = ''20'', refTemp = ''75'', conn1Name = [], conn2Name = [], conn3Name = []\<rparr>
          (Some ''10'') = Some (Fin v) \<and> \<bar>v\<bar> \<le> 200)"
proof -
  note g1 = derivation_guards [where measured = "Some ''abc''"
      and rated = "Some ''100''"
      and ?val1m.0 = "Some ''2''"
      and ?val30s.0 = "Some ''abc''"
      and ?val10m.0 = "Some ''5''"
      and measuredVal = "Some ''10''"
      and rs = "\<lparr>measuredTemp = ''abc'', refTemp = ''75'', conn1Name = [], conn2Name = [], conn3Name = []\<rparr>"
      and m = "101"
      and r = "100"
      and a = "2"
      and b = "1"
      and c = "5"
      and d = "5"
      and mv = "10"
      and t_meas = "20"
      and t_ref = "75"]
  note g2 = derivation_guards [where measured = "Some ''101''"
      and rated = "None"
      and ?val1m.0 = "Some []"
      and ?val30s.0 = "Some ''1''"
      and ?val10m.0 = "Some ''5''"
      and measuredVal = "Some ''10''"
      and rs = "\<lparr>measuredTemp = ''20'', refTemp = ''75'', conn1Name = [], conn2Name = [], conn3Name = []\<rparr>"
      and m = "101"
      and r = "100"
      and a = "5"
      and b = "1"
      and c = "5"
      and d = "5"
      and mv = "10"
      and t_meas = "20"
      and t_ref = "75"]
  note g3 = derivation_guards [where measured = "Some ''101''"
      and rated = "Some ''100''"
      and ?val1m.0 = "Some ''5''"
      and ?val30s.0 = "Some ''1''"
      and ?val10m.0 = "Some ''5''"
      and measuredVal = "Some ''10''"
      and rs = "\<lparr>measuredTemp = ''20'', refTemp = ''75'', conn1Name = [], conn2Name = [], conn3Name = []\<rparr>"
      and m = "101"
      and r = "100"
      and a = "5"
      and b = "1"
      and c = "5"
      and d = "5"
      and mv = "10"
      and t_meas = "20"
      and t_ref = "75"]
  note g4 = derivation_guards [where measured = "Some ''101''"
      and rated = "Some ''100''"
      and ?val1m.0 = "Some ''2''"
      and ?val30s.0 = "Some ''1''"
      and ?val10m.0 = "Some ''5''"
      and measuredVal = "Some ''10''"
      and rs = "\<lparr>measuredTemp = ''20'', refTemp = ''75'', conn1Name = [], conn2Name = [], conn3Name = []\<rparr>"
      and m = "101"
      and r = "100"
      and a = "2"
      and b = "1"
      and c = "5"
      and d = "2"
      and mv = "10"
      and t_meas = "20"
      and t_ref = "75"]
  note g5 = derivation_guards [where measured = "Some ''101''"
      and rated = "Some ''100''"
      and ?val1m.0 = "Some ''5''"
      and ?val30s.0 = "Some ''1''"
      and ?val10m.0 = "Some ''5''"
      and measuredVal = "Some ''10''"
      and rs = "\<lparr>measuredTemp = ''20'', refTemp = ''75'', conn1Name = [], conn2Name = [], conn3Name = []\<rparr>"
      and m = "101"
      and r = "100"
      and a = "5"
      and b = "1"
      and c = "5"
      and d = "5"
      and mv = "10"
      and t_meas = "20"
      and t_ref = "75"]
  note g6 = derivation_guards [where measured = "Some ''101''"
      and rated = "Some ''100''"
      and ?val1m.0 = "Some ''5''"
      and ?val30s.0 = "Some ''1''"
      and ?val10m.0 = "Some ''5''"
      and measuredVal = "Some ''10''"
      and rs = "\<lparr>measuredTemp = ''20'', refTemp = ''75'', conn1Name = [], conn2Name = [], conn3Name = []\<rparr>"
      and m = "101"
      and r = "100"
      and a = "5"
      and b = "1"
      and c = "5"
      and d = "5"
      and mv = "10"
      and t_meas = "20"
      and t_ref = "75"]
  have a: "calculateDeviation (Some ''abc'') (Some ''100'') = None"
  proof -
    note inst = g1 [THEN conjunct1]
    from inst show ?thesis by (simp add: parseNum_abc)
  qed
  have b: "calculateDAR (Some ''2'') (Some ''abc'') = None"
  proof -
    note inst = g1 [THEN conjunct2, THEN conjunct1]
    from inst show ?thesis by (simp add: parseNum_abc)
  qed
  have c: "calculateResistanceCorrection
        \<lparr>measuredTemp = ''abc'', refTemp = ''75'', conn1Name = [], conn2Name = [], conn3Name = []\<rparr>
        (Some ''10'') = None"
  proof -
    let ?rs = "\<lparr>measuredTemp = ''abc'', refTemp = ''75'', conn1Name = [], conn2Name = [], conn3Name = []\<rparr>"
    note inst = g1 [THEN conjunct2, THEN conjunct2, THEN conjunct2, THEN conjunct1]
    from inst show ?thesis by (simp add: parseNum_abc)
  qed
  have d: "calculateDeviation (Some ''101'') None = None"
  proof -
    note inst = g2 [THEN conjunct1]
    from inst show ?thesis by (simp add: parseNum_blank)
  qed
  have e: "calculatePI (Some ''5'') (Some []) = None"
  proof -
    note inst = g2 [THEN conjunct2, THEN conjunct2, THEN conjunct1]
    from inst show ?thesis by (simp add: parseNum_blank)
  qed
  have f: "calculateDeviation (Some ''101'') (Some ''100'') \<noteq> Some NaN"
  proof -
    note inst = g3 [THEN conj_skip4, THEN conjunct1]
    from inst show ?thesis by (simp add: parseNum_101 parseNum_100)
  qed
  have g: "calculateDAR (Some ''2'') (Some ''1'') \<noteq> Some NaN"
  proof -
    note inst = g4 [THEN conj_skip4, THEN conjunct2, THEN conjunct1]
    from inst show ?thesis by (simp add: parseNum_2 parseNum_1)
  qed
  have h: "calculatePI (Some ''5'') (Some ''5'') \<noteq> Some NaN"
  proof -
    note inst = g5 [THEN conj_skip4, THEN conjunct2, THEN conjunct2, THEN conjunct1]
    from inst show ?thesis by (simp add: parseNum_5)
  qed
  have i2: "ilog2 2 = 1" and i1: "ilog2 1 = 0"
    by (simp_all add: ilog2_def blen.simps)
  have i: "\<exists>v. calculateDeviation (Some ''101'') (Some ''100'') = Some (Fin v) \<and> \<bar>v\<bar> \<le> 8"
  proof -
    note inst = g3 [THEN conj_skip4, THEN conj_skip4, THEN conjunct2, THEN conjunct2, THEN conjunct2, THEN conjunct1]
    from inst show ?thesis by (simp add: parseNum_101 parseNum_100)
  qed
  have j: "\<exists>v. calculateDAR (Some ''2'') (Some ''1'') = Some (Fin v) \<and> \<bar>v - 2\<bar> \<le> 1 / 2 ^ 52"
  proof -
    note inst = g4 [THEN conj_skip4, THEN conj_skip4, THEN conj_skip4, THEN conjunct1]
    from inst show ?thesis by (simp add: parseNum_2 parseNum_1 i2 pow2_def)
  qed
  have k: "\<exists>v. calculatePI (Some ''5'') (Some ''5'') = Some (Fin v) \<and> \<bar>v - 1\<bar> \<le> 1 / 2 ^ 53"
  proof -
    note inst = g5 [THEN conj_skip4, THEN conj_skip4, THEN conj_skip4, THEN conjunct2, THEN conjunct1]
    from inst show ?thesis by (simp add: parseNum_5 i1 pow2_def)
  qed
  have small: "pow2 (- 1074) \<le> 255"
    by (simp add: pow2_def)
  have l: "\<exists>v. calculateResistanceCorrection
          \<lparr>measuredTemp = ''20'', refTemp = ''75'', conn1Name = [], conn2Name = [], conn3Name = []\<rparr>
          (Some ''10'') = Some (Fin v) \<and> \<bar>v\<bar> \<le> 200"
  proof -
    let ?rs = "\<lparr>measuredTemp = ''20'', refTemp = ''75'', conn1Name = [], conn2Name = [], conn3Name = []\<rparr>"
    note inst = g6 [THEN conj_skip4, THEN conj_skip4, THEN conj_skip4, THEN conjunct2, THEN conjunct2]
    from inst obtain v where v: "calculateResistanceCorrection ?rs (Some ''10'') = Some (Fin v)"
      and b: "\<bar>v\<bar> \<le> 16 * \<bar>10 * ((235 + 75) / (235 + 20))\<bar>"
      using small by (auto simp add: parseNum_int_10 parseNum_20 parseNum_75)
    from b have "\<bar>v\<bar> \<le> 200" by simp
    with v show ?thesis by blast
  qed
  from a b c d e f g h i j k l show ?thesis by blast
qed


text \<open>
  Claim C2 as stated fails: a text that parses to an infinity passes every guard, and
  the resistance correction has no guard on its divisor.
\<close>

theorem derivation_nonfinite_counterexample:
  "calculateDeviation (Some ''Infinity'') (Some ''1'') = Some PInf
   \<and> calculateDAR (Some ''Infinity'') (Some ''Infinity'') = Some NaN
   \<and> calculateResistanceCorrection
        \<lparr>measuredTemp = ''-235'', refTemp = ''75'', conn1Name = [], conn2Name = [], conn3Name = []\<rparr>
        (Some ''10'') = Some PInf"
proof -
  have a: "calculateDeviation (Some ''Infinity'') (Some ''1'') = Some PInf"
    by (simp add: calculateDeviation_def parseNum_Infinity parseNum_1 isNaN_def js_sub_def
        signed_inf_def)
  have b: "calculateDAR (Some ''Infinity'') (Some ''Infinity'') = Some NaN"
    by (simp add: calculateDAR_def parseNum_Infinity isNaN_def)
  have c: "calculateResistanceCorrection
        \<lparr>measuredTemp = ''-235'', refTemp = ''75'', conn1Name = [], conn2Name = [], conn3Name = []\<rparr>
        (Some ''10'') = Some PInf"
    unfolding calculateResistanceCorrection_def Let_def resistanceSettings.simps
      parseNum_int_10 parseNum_minus_235 parseNum_75 add_235_75 add_235_minus_235
    by (simp add: isNaN_def signed_inf_def)
  from a b c show ?thesis by blast
qed

section \<open>ClassificationRules\<close>

lemma parseNum_0_49: "parseNum (Some ''0,49'') = Fin (2206763817411543 / 4503599627370496)"
  unfolding parse_unfold
  apply (simp add: lex_defs)
  unfolding round64_unfold
  apply (simp add: blen.simps)
  done

lemma parseNum_0_51: "parseNum (Some ''0,51'') = Fin (2296835809958953 / 4503599627370496)"
  unfolding parse_unfold
  apply (simp add: lex_defs)
  unfolding round64_unfold
  apply (simp add: blen.simps)
  done

lemma parseNum_5_01: "parseNum (Some ''5,01'') = Fin (2820379266640773 / 562949953421312)"
  unfolding parse_unfold
  apply (simp add: lex_defs)
  unfolding round64_unfold
  apply (simp add: blen.simps)
  done

lemma div_5_01_5:
  "js_div (Fin (2820379266640773 / 562949953421312)) (Fin 5) = Fin (4512606826625237 / 4503599627370496)"
  apply simp
  unfolding round64_unfold
  apply (simp add: blen.simps)
  done

text \<open>
  Claim C4. The thresholds are those of the rules table, inclusive as it has them. A
  deviation is PASS exactly when its absolute value is at most 0.5, so a deviation of
  exactly 0.5 or \<open>-0.5\<close> is PASS. A \<open>tgPercent\<close> text that is not blank is PASS exactly
  when it parses to less than 0.5, so a text that parses to exactly 0.5 is FAIL. A
  polarization index is PASS with the label \<open>ACEPTABLE\<close> exactly when it is greater
  than 1, so an index of exactly 1 is FAIL with the label \<open>NO ACEPTABLE\<close>. No value
  (\<open>None\<close>, a blank text) is NEUTRAL.
\<close>

theorem thresholds_inclusive:
  "(js_abs d = Fin (1 / 2) \<longrightarrow>
      classify (getStatusTTR (Some d)) = PASS \<and> color (getStatusTTR (Some d)) = green)
   \<and> (parseNum tgPercent = Fin (1 / 2) \<longrightarrow>
      classify (getStatusTG tgPercent) = FAIL \<and> color (getStatusTG tgPercent) = red)
   \<and> classify (getStatusIP (Some (Fin 1))) = FAIL
   \<and> label (getStatusIP (Some (Fin 1))) = Some ''NO ACEPTABLE''
   \<and> (classify (getStatusIP piValue) = PASS \<longrightarrow>
      label (getStatusIP piValue) = Some ''ACEPTABLE'')
   \<and> (classify (getStatusIP piValue) = FAIL \<longrightarrow>
      label (getStatusIP piValue) = Some ''NO ACEPTABLE'')
   \<and> classify (getStatusTTR (Some (Fin x))) = (if \<bar>x\<bar> \<le> 1 / 2 then PASS else FAIL)
   \<and> classify (getStatusTTR (Some PInf)) = FAIL
   \<and> classify (getStatusTTR (Some NInf)) = FAIL
   \<and> classify (getStatusTTR (Some NaN)) = FAIL
   \<and> classify (getStatusTTR None) = NEUTRAL
   \<and> classify (getStatusTG None) = NEUTRAL
   \<and> classify (getStatusTG (Some [])) = NEUTRAL
   \<and> (parseNum (Some (c # cs)) = Fin y \<longrightarrow>
      classify (getStatusTG (Some (c # cs))) = (if y < 1 / 2 then PASS else FAIL))
   \<and> (parseNum (Some (c # cs)) = NaN \<longrightarrow> classify (getStatusTG (Some (c # cs))) = FAIL)
   \<and> classify (getStatusIP (Some (Fin z))) = (if 1 < z then PASS else FAIL)
   \<and> label (getStatusIP (Some (Fin z))) = Some (if 1 < z then ''ACEPTABLE'' else ''NO ACEPTABLE'')
   \<and> classify (getStatusIP (Some PInf)) = PASS
   \<and> classify (getStatusIP (Some NInf)) = FAIL
   \<and> classify (getStatusIP (Some NaN)) = FAIL
   \<and> classify (getStatusIP None) = NEUTRAL
   \<and> label (getStatusIP None) = Some ''-''"
proof -
  have ttr: "js_abs d = Fin (1 / 2) \<longrightarrow>
      classify (getStatusTTR (Some d)) = PASS \<and> color (getStatusTTR (Some d)) = green"
    by (simp add: getStatusTTR_def classify_def Let_def)
  have tg: "parseNum tgPercent = Fin (1 / 2) \<longrightarrow>
      classify (getStatusTG tgPercent) = FAIL \<and> color (getStatusTG tgPercent) = red"
    by (auto simp add: getStatusTG_def classify_def Let_def parseNum_def)
  have ip1: "classify (getStatusIP (Some (Fin 1))) = FAIL"
    by (simp add: getStatusIP_def classify_def)
  have ip2: "label (getStatusIP (Some (Fin 1))) = Some ''NO ACEPTABLE''"
    by (simp add: getStatusIP_def)
  have ip3: "classify (getStatusIP piValue) = PASS \<longrightarrow>
      label (getStatusIP piValue) = Some ''ACEPTABLE''"
    by (simp add: getStatusIP_def classify_def split: option.splits)
  have ip4: "classify (getStatusIP piValue) = FAIL \<longrightarrow>
      label (getStatusIP piValue) = Some ''NO ACEPTABLE''"
    by (simp add: getStatusIP_def classify_def split: option.splits)
  have ttr_fin: "classify (getStatusTTR (Some (Fin x))) = (if \<bar>x\<bar> \<le> 1 / 2 then PASS else FAIL)"
    by (auto simp add: getStatusTTR_def classify_def Let_def)
  have ttr_rest: "classify (getStatusTTR (Some PInf)) = FAIL"
    "classify (getStatusTTR (Some NInf)) = FAIL"
    "classify (getStatusTTR (Some NaN)) = FAIL"
    "classify (getStatusTTR None) = NEUTRAL"
    by (simp_all add: getStatusTTR_def classify_def Let_def)
  have tg_blank: "classify (getStatusTG None) = NEUTRAL" "classify (getStatusTG (Some [])) = NEUTRAL"
    by (simp_all add: getStatusTG_def classify_def)
  have tg_fin: "parseNum (Some (c # cs)) = Fin y \<longrightarrow>
      classify (getStatusTG (Some (c # cs))) = (if y < 1 / 2 then PASS else FAIL)"
    by (simp add: getStatusTG_def classify_def Let_def)
  have tg_nan: "parseNum (Some (c # cs)) = NaN \<longrightarrow> classify (getStatusTG (Some (c # cs))) = FAIL"
    by (simp add: getStatusTG_def classify_def Let_def)
  have ip_fin: "classify (getStatusIP (Some (Fin z))) = (if 1 < z then PASS else FAIL)"
    "label (getStatusIP (Some (Fin z))) = Some (if 1 < z then ''ACEPTABLE'' else ''NO ACEPTABLE'')"
    by (simp_all add: getStatusIP_def classify_def)
  have ip_rest: "classify (getStatusIP (Some PInf)) = PASS"
    "classify (getStatusIP (Some NInf)) = FAIL"
    "classify (getStatusIP (Some NaN)) = FAIL"
    "classify (getStatusIP None) = NEUTRAL"
    "label (getStatusIP None) = Some ''-''"
    by (simp_all add: getStatusIP_def classify_def)
  show ?thesis
    by (intro conjI ttr tg ip1 ip2 ip3 ip4 ttr_fin ttr_rest tg_blank tg_fin tg_nan ip_fin ip_rest)
qed

theorem thresholds_inclusive_witness:
  "classify (getStatusTTR (Some (Fin (- 1 / 2)))) = PASS
   \<and> classify (getStatusTTR (calculateDeviation (Some ''100,5'') (Some ''100''))) = PASS
   \<and> classify (getStatusTG (Some ''0,5'')) = FAIL
   \<and> label (getStatusIP (calculatePI (Some ''5'') (Some ''5''))) = Some ''NO ACEPTABLE''
   \<and> label (getStatusIP (Some (Fin 2))) = Some ''ACEPTABLE''
   \<and> classify (getStatusTTR (calculateDeviation (Some ''101'') (Some ''100''))) = FAIL
   \<and> classify (getStatusTTR (Some (Fin (2 / 5)))) = PASS
   \<and> classify (getStatusTG (Some ''0,49'')) = PASS
   \<and> classify (getStatusTG (Some ''0,51'')) = FAIL
   \<and> classify (getStatusTG (Some ''abc'')) = FAIL
   \<and> classify (getStatusIP (calculatePI (Some ''5,01'') (Some ''5''))) = PASS
   \<and> label (getStatusIP (calculatePI (Some ''5,01'') (Some ''5''))) = Some ''ACEPTABLE''
   \<and> classify (getStatusIP (Some (Fin (1 / 2)))) = FAIL"
proof -
  have dev: "calculateDeviation (Some ''100,5'') (Some ''100'') = Some (Fin (1 / 2))"
    unfolding calculateDeviation_def Let_def parseNum_100_5 parseNum_100 sub_100_5_100
      div_half_100 mul_200th_100
    by (simp add: isNaN_def)
  have dev1: "calculateDeviation (Some ''101'') (Some ''100'') = Some (Fin 1)"
    unfolding calculateDeviation_def Let_def parseNum_101 parseNum_100 sub_101_100
      div_1_100 mul_100th_100
    by (simp add: isNaN_def)
  have pi: "calculatePI (Some ''5'') (Some ''5'') = Some (Fin 1)"
    unfolding calculatePI_def Let_def parseNum_5 div_5_5 by (simp add: isNaN_def)
  have pi2: "calculatePI (Some ''5,01'') (Some ''5'')
      = Some (Fin (4512606826625237 / 4503599627370496))"
    unfolding calculatePI_def Let_def parseNum_5 parseNum_5_01 div_5_01_5 by (simp add: isNaN_def)
  have a: "classify (getStatusTTR (Some (Fin (- 1 / 2)))) = PASS"
    using thresholds_inclusive [where d = "Fin (- 1 / 2)"] by simp
  have b: "classify (getStatusTTR (calculateDeviation (Some ''100,5'') (Some ''100''))) = PASS"
    using thresholds_inclusive [where d = "Fin (1 / 2)"] by (simp add: dev)
  have c: "classify (getStatusTG (Some ''0,5'')) = FAIL"
    using thresholds_inclusive [where tgPercent = "Some ''0,5''"] by (simp add: parseNum_0_5)
  have d: "label (getStatusIP (calculatePI (Some ''5'') (Some ''5''))) = Some ''NO ACEPTABLE''"
    using thresholds_inclusive [where piValue = "Some (Fin 1)"] by (simp add: pi)
  have pass2: "classify (getStatusIP (Some (Fin 2))) = PASS"
    by (simp add: getStatusIP_def classify_def)
  have e: "label (getStatusIP (Some (Fin 2))) = Some ''ACEPTABLE''"
    using thresholds_inclusive [where piValue = "Some (Fin 2)"] pass2 by simp
  have f: "classify (getStatusTTR (calculateDeviation (Some ''101'') (Some ''100''))) = FAIL"
    using thresholds_inclusive [where x = 1] by (simp add: dev1)
  have g: "classify (getStatusTTR (Some (Fin (2 / 5)))) = PASS"
    using thresholds_inclusive [where x = "2 / 5"] by simp
  have h: "classify (getStatusTG (Some ''0,49'')) = PASS"
    using thresholds_inclusive [where c = "CHR ''0''" and cs = "'',49''"
        and y = "2206763817411543 / 4503599627370496"]
    by (simp add: parseNum_0_49)
  have i: "classify (getStatusTG (Some ''0,51'')) = FAIL"
    using thresholds_inclusive [where c = "CHR ''0''" and cs = "'',51''"
        and y = "2296835809958953 / 4503599627370496"]
    by (simp add: parseNum_0_51)
  have j: "classify (getStatusTG (Some ''abc'')) = FAIL"
    using thresholds_inclusive [where c = "CHR ''a''" and cs = "''bc''"]
    by (simp add: parseNum_abc)
  have k: "classify (getStatusIP (calculatePI (Some ''5,01'') (Some ''5''))) = PASS"
    "label (getStatusIP (calculatePI (Some ''5,01'') (Some ''5''))) = Some ''ACEPTABLE''"
    using thresholds_inclusive [where z = "4512606826625237 / 4503599627370496"]
    by (simp_all add: pi2)
  have l: "classify (getStatusIP (Some (Fin (1 / 2)))) = FAIL"
    using thresholds_inclusive [where z = "1 / 2"] by simp
  from a b c d e f g h i j k l show ?thesis by blast
qed

section \<open>TapRowGenerator\<close>

lemma push_pos_eq: "push_pos n rows = rows @ map pos_row (rev [1..<Suc n])"
  by (induction n arbitrary: rows) simp_all

lemma push_neg_eq: "push_neg i n rows = rows @ map neg_row [i..<Suc n]"
proof (induction i n rows rule: push_neg.induct)
  case (1 i n rows)
  show ?case
  proof (cases "i \<le> n")
    case True
    then have "[i..<Suc n] = i # [Suc i..<Suc n]"
      by (simp add: upt_conv_Cons)
    with True "1" show ?thesis
      by (simp add: push_neg.simps [of i])
  next
    case False
    then show ?thesis
      by (simp add: push_neg.simps [of i])
  qed
qed

lemma tapRows_eq:
  "tapRows n = map pos_row (rev [1..<Suc n]) @ [neutral_row] @ map neg_row [1..<Suc n]"
  by (simp add: tapRows_def push_pos_eq push_neg_eq)

lemma digit_chars:
  "digit_char 0 = CHR ''0''" "digit_char 1 = CHR ''1''" "digit_char (Suc 0) = CHR ''1''"
  "digit_char 2 = CHR ''2''" "digit_char 3 = CHR ''3''" "digit_char 4 = CHR ''4''"
  "digit_char 5 = CHR ''5''" "digit_char 6 = CHR ''6''" "digit_char 7 = CHR ''7''"
  "digit_char 8 = CHR ''8''" "digit_char 9 = CHR ''9''"
  by code_simp+

lemma digit_char_inj: "a < 10 \<Longrightarrow> b < 10 \<Longrightarrow> digit_char a = digit_char b \<Longrightarrow> a = b"
proof -
  assume a: "a < 10" and b: "b < 10" and eq: "digit_char a = digit_char b"
  have "(of_char (digit_char a) :: nat) = of_char (digit_char b)"
    using eq by simp
  then have "(48 + a) mod 256 = (48 + b) mod 256"
    by (simp add: digit_char_def)
  with a b show "a = b" by simp
qed

lemma dec_length: "10 \<le> n \<Longrightarrow> 2 \<le> length (dec n)"
  by (subst dec.simps, cases "n div 10 < 10") (simp_all add: dec.simps [of "n div 10"])

lemma dec_inj: "dec m = dec n \<Longrightarrow> m = n"
proof (induction m arbitrary: n rule: dec.induct)
  case (1 m)
  show ?case
  proof (cases "m < 10")
    case small_m: True
    show ?thesis
    proof (cases "n < 10")
      case True
      with small_m "1.prems" show ?thesis
        by (simp add: dec.simps [of m] dec.simps [of n] digit_char_inj)
    next
      case False
      then have "2 \<le> length (dec n)" by (simp add: dec_length)
      moreover have "length (dec m) = 1" using small_m by (simp add: dec.simps [of m])
      ultimately show ?thesis using "1.prems" by simp
    qed
  next
    case big_m: False
    show ?thesis
    proof (cases "n < 10")
      case True
      then have "length (dec n) = 1" by (simp add: dec.simps [of n])
      moreover have "2 \<le> length (dec m)" using big_m by (simp add: dec_length)
      ultimately show ?thesis using "1.prems" by simp
    next
      case False
      with big_m "1.prems" have eq: "dec (m div 10) = dec (n div 10)"
        and last: "digit_char (m mod 10) = digit_char (n mod 10)"
        by (simp_all add: dec.simps [of m] dec.simps [of n])
      from "1.IH" [OF big_m eq] have "m div 10 = n div 10" .
      moreover from last have "m mod 10 = n mod 10"
        by (intro digit_char_inj) simp_all
      ultimately show ?thesis
        by (metis div_mult_mod_eq)
    qed
  qed
qed

lemma distinct_tap_ids: "distinct (map row_id (tapRows n))"
proof -
  have pos: "distinct (map (\<lambda>k. ''pos-'' @ dec k) (rev [1..<Suc n]))"
    by (simp add: distinct_map inj_on_def dec_inj)
  have neg: "distinct (map (\<lambda>k. ''neg-'' @ dec k) [1..<Suc n])"
    by (simp add: distinct_map inj_on_def dec_inj)
  have ids: "map row_id (tapRows n) =
      map (\<lambda>k. ''pos-'' @ dec k) (rev [1..<Suc n]) @ [''neutral'']
        @ map (\<lambda>k. ''neg-'' @ dec k) [1..<Suc n]"
    by (simp add: tapRows_eq pos_row_def neg_row_def neutral_row_def comp_def)
  show ?thesis
    unfolding ids using pos neg by auto
qed

text \<open>
  Claim C3. For every tap range \<open>N\<close> the generator yields \<open>2 N + 1\<close> rows: the positive
  positions from \<open>+N\<close> down to \<open>+1\<close> with ids \<open>pos-N\<close> to \<open>pos-1\<close>, the row
  \<open>0 (Nominal)\<close> with id \<open>neutral\<close>, and the negative positions from \<open>-1\<close> to \<open>-N\<close> with
  ids \<open>neg-1\<close> to \<open>neg-N\<close>. The ids are pairwise distinct and the id of a position is a
  function of the position alone, so every call gives the same ids.
\<close>

theorem tapRows_spec:
  "length (tapRows N) = 2 * N + 1
   \<and> map row_id (tapRows N) =
       map (\<lambda>k. ''pos-'' @ dec k) (rev [1..<Suc N]) @ [''neutral'']
         @ map (\<lambda>k. ''neg-'' @ dec k) [1..<Suc N]
   \<and> map row_label (tapRows N) =
       map (\<lambda>k. ''+'' @ dec k) (rev [1..<Suc N]) @ [''0 (Nominal)'']
         @ map (\<lambda>k. ''-'' @ dec k) [1..<Suc N]
   \<and> distinct (map row_id (tapRows N))
   \<and> map row_id (tapRows 2) = [''pos-2'', ''pos-1'', ''neutral'', ''neg-1'', ''neg-2'']
   \<and> map row_label (tapRows 2) = [''+2'', ''+1'', ''0 (Nominal)'', ''-1'', ''-2'']
   \<and> map row_id (tapRows 0) = [''neutral'']
   \<and> hd (tapRows 16) = \<lparr>row_id = ''pos-16'', row_label = ''+16''\<rparr>
   \<and> last (tapRows 16) = \<lparr>row_id = ''neg-16'', row_label = ''-16''\<rparr>"
proof -
  have len: "length (tapRows N) = 2 * N + 1"
    by (simp add: tapRows_eq)
  have ids: "map row_id (tapRows n) =
      map (\<lambda>k. ''pos-'' @ dec k) (rev [1..<Suc n]) @ [''neutral'']
        @ map (\<lambda>k. ''neg-'' @ dec k) [1..<Suc n]" for n
    by (simp add: tapRows_eq pos_row_def neg_row_def neutral_row_def comp_def)
  have labels: "map row_label (tapRows n) =
      map (\<lambda>k. ''+'' @ dec k) (rev [1..<Suc n]) @ [''0 (Nominal)'']
        @ map (\<lambda>k. ''-'' @ dec k) [1..<Suc n]" for n
    by (simp add: tapRows_eq pos_row_def neg_row_def neutral_row_def comp_def)
  have two: "[1..<Suc 2] = [1, 2]"
    by (simp add: upt_rec)
  have ids2: "map row_id (tapRows 2) = [''pos-2'', ''pos-1'', ''neutral'', ''neg-1'', ''neg-2'']"
    unfolding ids two by (simp add: dec.simps digit_chars)
  have labels2: "map row_label (tapRows 2) = [''+2'', ''+1'', ''0 (Nominal)'', ''-1'', ''-2'']"
    unfolding labels two by (simp add: dec.simps digit_chars)
  have ids0: "map row_id (tapRows 0) = [''neutral'']"
    unfolding ids by simp
  have sixteen: "[1..<Suc 16] = [1..<16] @ [16]"
    by (rule upt_Suc_append) simp
  have first: "hd (tapRows 16) = \<lparr>row_id = ''pos-16'', row_label = ''+16''\<rparr>"
    unfolding tapRows_eq sixteen by (simp add: pos_row_def dec.simps digit_chars)
  have final: "last (tapRows 16) = \<lparr>row_id = ''neg-16'', row_label = ''-16''\<rparr>"
    unfolding tapRows_eq sixteen by (simp add: neg_row_def dec.simps digit_chars)
  from len ids [of N] labels [of N] distinct_tap_ids [of N] ids2 labels2 ids0 first final
  show ?thesis by blast
qed

section \<open>ProjectModel: tap range and project creation\<close>

lemma rowData_update_same: "rowData (AList.update k v d) k = v"
  by (simp add: rowData_def update_conv')

text \<open>
  Claim C7. Changing the tap range changes nothing but the tap range: the \<open>data\<close>
  mapping, with the entries of positions outside the new range, stays as it is. After
  lowering the range to \<open>n\<close> and raising it to \<open>m\<close> the table shows for every position
  what it would show had the range been set to \<open>m\<close> directly, and a value typed into a
  field before the two changes is read back unchanged.
\<close>

theorem setTapRange_preserves_data:
  "data (setTapRange n ed) = data ed
   \<and> setTapRange n ed = ed\<lparr>tapRange := n\<rparr>
   \<and> tapRange (setTapRange n ed) = n
   \<and> rowData (data (setTapRange n ed)) rid = rowData (data ed) rid
   \<and> tapTable (setTapRange m (setTapRange n ed)) = tapTable (setTapRange m ed)
   \<and> tapTable (setTapRange (tapRange ed) (setTapRange n ed)) = tapTable ed
   \<and> map_of (rowData (data (setTapRange m (setTapRange n (handleInputChange rid field val ed)))) rid)
         field = Some (replace_first CHR ''.'' CHR '','' val)"
proof -
  have a: "data (setTapRange n ed) = data ed"
    by (simp add: setTapRange_def)
  have b: "setTapRange n ed = ed\<lparr>tapRange := n\<rparr>"
    by (simp add: setTapRange_def)
  have c: "tapRange (setTapRange n ed) = n"
    by (simp add: setTapRange_def)
  have d: "rowData (data (setTapRange n ed)) rid = rowData (data ed) rid"
    by (simp add: setTapRange_def)
  have e: "tapTable (setTapRange m (setTapRange n ed)) = tapTable (setTapRange m ed)"
    by (simp add: setTapRange_def tapTable_def)
  have f: "tapTable (setTapRange (tapRange ed) (setTapRange n ed)) = tapTable ed"
    by (simp add: setTapRange_def tapTable_def)
  have g: "map_of (rowData (data (setTapRange m (setTapRange n (handleInputChange rid field val ed)))) rid)
         field = Some (replace_first CHR ''.'' CHR '','' val)"
    by (simp add: setTapRange_def handleInputChange_def Let_def rowData_update_same update_conv')
  from a b c d e f g show ?thesis by blast
qed

lemma fresh_rows_eq:
  "fresh_rows k g =
     (map (\<lambda>j. [(''id'', draws g (drawn g + j))]) [0..<k], g\<lparr>drawn := drawn g + k\<rparr>)"
proof (induction k arbitrary: g)
  case 0
  then show ?case by simp
next
  case (Suc k)
  have shift: "map (\<lambda>j. [(''id'', draws g (drawn g + j))]) [0..<Suc k] =
      [(''id'', draws g (drawn g))] # map (\<lambda>j. [(''id'', draws g (Suc (drawn g + j)))]) [0..<k]"
    by (simp add: upt_conv_Cons map_Suc_upt [symmetric] del: upt_Suc)
  show ?case
    unfolding shift by (simp add: Suc generateId_def)
qed

text \<open>
  Claim C10. A newly created project has tap range 5, an empty \<open>data\<close> mapping, the
  default resistance settings, four tangent-delta rows and six insulation rows; each of
  these rows has the single property \<open>id\<close>, whose value is a draw of its own from the
  id generator. With a user signed in, this project is what \<open>handleCreateProject\<close>
  writes to the repository.
\<close>

theorem newProject_shape:
  "tapRange (fst (newProject now g)) = 5
   \<and> data (fst (newProject now g)) = []
   \<and> resistanceSettings (fst (newProject now g)) =
       \<lparr>measuredTemp = ''20'', refTemp = ''75'', conn1Name = conexion ''1'',
        conn2Name = conexion ''2'', conn3Name = conexion ''3''\<rparr>
   \<and> conexion ''1'' = ''Conexi'' @ [CHR 0xF3] @ ''n 1''
   \<and> project_id (fst (newProject now g)) = draws g (drawn g)
   \<and> tgDeltaData (fst (newProject now g)) =
       map (\<lambda>j. [(''id'', draws g (drawn g + 1 + j))]) [0..<4]
   \<and> insulationData (fst (newProject now g)) =
       map (\<lambda>j. [(''id'', draws g (drawn g + 5 + j))]) [0..<6]
   \<and> length (tgDeltaData (fst (newProject now g))) = 4
   \<and> length (insulationData (fst (newProject now g))) = 6
   \<and> drawn (snd (newProject now g)) = drawn g + 11
   \<and> setDocs (handleCreateProject now ok (a\<lparr>user := Some uid\<rparr>)) =
       setDocs a @ [(uid, project_id (fst (newProject now (gen a))), fst (newProject now (gen a)))]
   \<and> handleCreateProject now ok (a\<lparr>user := None\<rparr>) = a\<lparr>user := None\<rparr>"
proof -
  have np: "newProject now g =
      (\<lparr>tapRange = 5, data = [],
        tgDeltaData = map (\<lambda>j. [(''id'', draws g (drawn g + 1 + j))]) [0..<4],
        insulationData = map (\<lambda>j. [(''id'', draws g (drawn g + 5 + j))]) [0..<6],
        headerInfo = \<lparr>manufacturingNumber = [], serialNumber = [], client = [], date = now\<rparr>,
        resistanceSettings = \<lparr>measuredTemp = ''20'', refTemp = ''75'',
          conn1Name = conexion ''1'', conn2Name = conexion ''2'', conn3Name = conexion ''3''\<rparr>,
        project_id = draws g (drawn g), lastModified = now\<rparr>,
       g\<lparr>drawn := drawn g + 11\<rparr>)" for g
    by (simp add: newProject_def generateId_def fresh_rows_eq Let_def ac_simps)
  have cx: "conexion ''1'' = ''Conexi'' @ [CHR 0xF3] @ ''n 1''"
    by code_simp
  have create: "setDocs (handleCreateProject now ok (a\<lparr>user := Some uid\<rparr>)) =
       setDocs a @ [(uid, project_id (fst (newProject now (gen a))), fst (newProject now (gen a)))]"
    by (simp add: handleCreateProject_def Let_def split: prod.splits)
  have nouser: "handleCreateProject now ok (a\<lparr>user := None\<rparr>) = a\<lparr>user := None\<rparr>"
    by (simp add: handleCreateProject_def)
  show ?thesis
    unfolding np using cx create [unfolded np] nouser by simp
qed
section \<open>NumericFormat: \<^verbatim>\<open>formatNum\<close> against the fixed-point rendering\<close>

lemma dec_0: "dec 0 = ''0''"
  by (simp add: dec.simps digit_chars)

lemma dec_not_Nil: "dec n \<noteq> []"
  by (subst dec.simps) simp

lemma digit_char_not_period: "d < 10 \<Longrightarrow> digit_char d \<noteq> CHR ''.''"
proof
  assume d: "d < 10" and eq: "digit_char d = CHR ''.''"
  have "(of_char (digit_char d) :: nat) = of_char CHR ''.''"
    using eq by simp
  then have "(48 + d) mod 256 = 46"
    by (simp add: digit_char_def)
  with d show False by simp
qed

lemma period_notin_dec: "CHR ''.'' \<notin> set (dec n)"
proof (induction n rule: dec.induct)
  case (1 n)
  show ?case
  proof (cases "n < 10")
    case True
    then show ?thesis
      using digit_char_not_period [of n] by (auto simp add: dec.simps [of n])
  next
    case False
    then show ?thesis
      using "1" digit_char_not_period [of "n mod 10"] by (auto simp add: dec.simps [of n])
  qed
qed

lemma frac_digits_length: "length (frac_digits f r) = f"
  by (induction f arbitrary: r) simp_all

lemma frac_digits_zero: "frac_digits f 0 = replicate f CHR ''0''"
  by (induction f) (simp_all add: digit_chars replicate_append_same)

lemma pad_dec:
  "(if length (dec n) \<le> f then replicate (f + 1 - length (dec n)) CHR ''0'' @ dec n else dec n)
     = dec (n div 10 ^ f) @ frac_digits f (n mod 10 ^ f)"
proof (induction f arbitrary: n)
  case 0
  then show ?case using dec_not_Nil [of n] by simp
next
  case (Suc f)
  show ?case
  proof (cases "n < 10")
    case True
    have "(1::nat) \<le> 10 ^ f" by simp
    then have "(10::nat) \<le> 10 ^ Suc f" by simp
    with True have "n < 10 ^ Suc f" by linarith
    then show ?thesis
      using True
      by (simp add: dec.simps [of n] dec_0 frac_digits_zero replicate_append_same del: power_Suc)
  next
    case False
    let ?q = "n div 10"
    have d: "dec n = dec ?q @ [digit_char (n mod 10)]"
      using False by (simp add: dec.simps [of n])
    have q: "n div 10 ^ Suc f = ?q div 10 ^ f"
      by (simp add: div_mult2_eq)
    have r1: "(n mod 10 ^ Suc f) div 10 = ?q mod 10 ^ f"
      by (simp add: mod_mult2_eq)
    have r2: "(n mod 10 ^ Suc f) mod 10 = n mod 10"
      by (simp add: mod_mult2_eq)
    have "(if length (dec n) \<le> Suc f then replicate (Suc f + 1 - length (dec n)) CHR ''0'' @ dec n
           else dec n)
        = (if length (dec ?q) \<le> f then replicate (f + 1 - length (dec ?q)) CHR ''0'' @ dec ?q
           else dec ?q) @ [digit_char (n mod 10)]"
      by (simp add: d)
    also have "\<dots> = dec (?q div 10 ^ f) @ frac_digits f (?q mod 10 ^ f) @ [digit_char (n mod 10)]"
      by (simp add: Suc)
    also have "\<dots> = dec (n div 10 ^ Suc f) @ frac_digits (Suc f) (n mod 10 ^ Suc f)"
      unfolding q frac_digits.simps r1 r2 by simp
    finally show ?thesis .
  qed
qed

lemma fixed_digits_eq:
  "fixed_digits a f =
     (let n = nat \<lfloor>a * 10 ^ f + 1 / 2\<rfloor>
      in dec (n div 10 ^ f) @ (if f = 0 then [] else ''.'' @ frac_digits f (n mod 10 ^ f)))"
proof -
  define n where "n = nat \<lfloor>a * 10 ^ f + 1 / 2\<rfloor>"
  define m' where "m' = (if length (dec n) \<le> f
      then replicate (f + 1 - length (dec n)) CHR ''0'' @ dec n else dec n)"
  have m: "(if n = 0 then ''0'' else dec n) = dec n"
    by (simp add: dec_0)
  have split: "m' = dec (n div 10 ^ f) @ frac_digits f (n mod 10 ^ f)"
    unfolding m'_def by (rule pad_dec)
  have k: "length m' - f = length (dec (n div 10 ^ f))"
    by (simp add: split frac_digits_length)
  have "fixed_digits a f = (if f = 0 then dec n
      else take (length m' - f) m' @ ''.'' @ drop (length m' - f) m')"
    by (simp add: fixed_digits_def Let_def n_def [symmetric] m m'_def)
  also have "\<dots> = dec (n div 10 ^ f) @ (if f = 0 then [] else ''.'' @ frac_digits f (n mod 10 ^ f))"
    unfolding k by (simp add: split)
  finally show ?thesis
    by (simp add: Let_def n_def)
qed

lemma replace_first_absent: "a \<notin> set xs \<Longrightarrow> replace_first a b xs = xs"
  by (induction xs) auto

lemma replace_first_found: "a \<notin> set xs \<Longrightarrow> replace_first a b (xs @ a # ys) = xs @ b # ys"
  by (induction xs) auto

lemma formatNum_fixed:
  assumes d: "0 \<le> d" "d \<le> 100" and x: "\<bar>x\<bar> < 10 ^ 21"
  shows "formatNum ts (Num (Fin x)) (Some d) = Inr (fixed_point_comma x (nat d))"
proof -
  define n where "n = nat \<lfloor>\<bar>x\<bar> * 10 ^ nat d + 1 / 2\<rfloor>"
  define sg where "sg = (if x < 0 then ''-'' else [])"
  have nodot: "CHR ''.'' \<notin> set (sg @ dec (n div 10 ^ nat d))"
    by (simp add: sg_def period_notin_dec)
  have tf: "toFixed ts (Fin x) d =
      Inr (sg @ dec (n div 10 ^ nat d)
             @ (if nat d = 0 then [] else ''.'' @ frac_digits (nat d) (n mod 10 ^ nat d)))"
    using d x by (simp add: toFixed_def fixed_digits_eq Let_def n_def sg_def)
  have rep: "replace_first CHR ''.'' CHR '',''
        (sg @ dec (n div 10 ^ nat d)
           @ (if nat d = 0 then [] else ''.'' @ frac_digits (nat d) (n mod 10 ^ nat d)))
      = sg @ dec (n div 10 ^ nat d)
           @ (if nat d = 0 then [] else '','' @ frac_digits (nat d) (n mod 10 ^ nat d))"
  proof (cases "nat d = 0")
    case True
    then show ?thesis
      using replace_first_absent [OF nodot] by simp
  next
    case False
    then show ?thesis
      using replace_first_found [OF nodot, of "CHR '',''" "frac_digits (nat d) (n mod 10 ^ nat d)"]
      by simp
  qed
  have spec: "fixed_point_comma x (nat d) = sg @ dec (n div 10 ^ nat d)
           @ (if nat d = 0 then [] else '','' @ frac_digits (nat d) (n mod 10 ^ nat d))"
    by (simp add: fixed_point_comma_def Let_def n_def sg_def)
  have "formatNum ts (Num (Fin x)) (Some d) =
      Inr (replace_first CHR ''.'' CHR '',''
        (sg @ dec (n div 10 ^ nat d)
           @ (if nat d = 0 then [] else ''.'' @ frac_digits (nat d) (n mod 10 ^ nat d))))"
    by (simp add: formatNum_def isNaN_def tf)
  then show ?thesis
    unfolding rep spec .
qed

lemma nearest_bound:
  fixes a :: real
  assumes "0 \<le> a"
  shows "\<bar>real (nat \<lfloor>a * 10 ^ d + 1 / 2\<rfloor>) / 10 ^ d - a\<bar> \<le> 1 / (2 * 10 ^ d)"
proof -
  define y where "y = a * 10 ^ d"
  have y0: "0 \<le> y" using assms by (simp add: y_def)
  then have fl: "0 \<le> \<lfloor>y + 1 / 2\<rfloor>" by simp
  have lo: "real_of_int \<lfloor>y + 1 / 2\<rfloor> \<le> y + 1 / 2" by linarith
  have hi: "y + 1 / 2 < real_of_int \<lfloor>y + 1 / 2\<rfloor> + 1" by linarith
  have n: "real (nat \<lfloor>y + 1 / 2\<rfloor>) = real_of_int \<lfloor>y + 1 / 2\<rfloor>"
    using fl by simp
  have half: "\<bar>real (nat \<lfloor>y + 1 / 2\<rfloor>) - y\<bar> \<le> 1 / 2"
    unfolding n using lo hi by linarith
  have "\<bar>real (nat \<lfloor>y + 1 / 2\<rfloor>) - y\<bar> / 10 ^ d \<le> (1 / 2) / 10 ^ d"
    using half by (rule divide_right_mono) simp
  moreover have "real (nat \<lfloor>y + 1 / 2\<rfloor>) / 10 ^ d - a
      = (real (nat \<lfloor>y + 1 / 2\<rfloor>) - y) / 10 ^ d"
    by (simp add: y_def field_simps)
  then have "\<bar>real (nat \<lfloor>y + 1 / 2\<rfloor>) - y\<bar> / 10 ^ d
      = \<bar>real (nat \<lfloor>y + 1 / 2\<rfloor>) / 10 ^ d - a\<bar>"
    by simp
  moreover have "(1 / 2) / 10 ^ d = 1 / (2 * 10 ^ d :: real)"
    by simp
  ultimately show ?thesis
    by (simp add: y_def)
qed

text \<open>
  Claim C9, as amended. \<open>formatNum\<close> yields the placeholder \<open>-\<close> for \<open>null\<close>,
  \<open>undefined\<close> and NaN, and an omitted \<open>decimals\<close> is 3. For \<open>0 \<le> d \<le> 100\<close> a finite
  \<open>x\<close> of magnitude below \<open>10 ^ 21\<close> is rendered fixed-point to \<open>d\<close> places with a comma,
  the rendered value being within half a unit of the last place of \<open>x\<close>, and the
  infinities are rendered by their names. A \<open>d\<close> outside \<open>0..100\<close> raises a RangeError
  for every Number but NaN.
\<close>

theorem formatNum_spec:
  "formatNum ts Null dopt = Inr ''-''
   \<and> formatNum ts Undefined dopt = Inr ''-''
   \<and> formatNum ts (Num NaN) dopt = Inr ''-''
   \<and> formatNum ts v None = formatNum ts v (Some 3)
   \<and> (0 \<le> d \<and> d \<le> 100 \<and> \<bar>x\<bar> < 10 ^ 21 \<longrightarrow>
        formatNum ts (Num (Fin x)) (Some d) = Inr (fixed_point_comma x (nat d))
        \<and> \<bar>real (nat \<lfloor>\<bar>x\<bar> * 10 ^ nat d + 1 / 2\<rfloor>) / 10 ^ nat d - \<bar>x\<bar>\<bar>
            \<le> 1 / (2 * 10 ^ nat d))
   \<and> (0 \<le> d \<and> d \<le> 100 \<longrightarrow>
        formatNum ts (Num PInf) (Some d) = Inr ''Infinity''
        \<and> formatNum ts (Num NInf) (Some d) = Inr ''-Infinity'')
   \<and> ((d < 0 \<or> 100 < d) \<and> y \<noteq> NaN \<longrightarrow> formatNum ts (Num y) (Some d) = Inl RangeError)"
proof -
  have a: "formatNum ts Null dopt = Inr ''-''"
    and b: "formatNum ts Undefined dopt = Inr ''-''"
    and c: "formatNum ts (Num NaN) dopt = Inr ''-''"
    by (simp_all add: formatNum_def isNaN_def)
  have dflt: "formatNum ts v None = formatNum ts v (Some 3)"
    by (cases v) (simp_all add: formatNum_def)
  have fin: "0 \<le> d \<and> d \<le> 100 \<and> \<bar>x\<bar> < 10 ^ 21 \<longrightarrow>
        formatNum ts (Num (Fin x)) (Some d) = Inr (fixed_point_comma x (nat d))
        \<and> \<bar>real (nat \<lfloor>\<bar>x\<bar> * 10 ^ nat d + 1 / 2\<rfloor>) / 10 ^ nat d - \<bar>x\<bar>\<bar>
            \<le> 1 / (2 * 10 ^ nat d)"
    using formatNum_fixed [of d x ts] nearest_bound [of "\<bar>x\<bar>" "nat d"] by simp
  have inf: "0 \<le> d \<and> d \<le> 100 \<longrightarrow>
        formatNum ts (Num PInf) (Some d) = Inr ''Infinity''
        \<and> formatNum ts (Num NInf) (Some d) = Inr ''-Infinity''"
    by (simp add: formatNum_def isNaN_def toFixed_def)
  have range: "(d < 0 \<or> 100 < d) \<and> y \<noteq> NaN \<longrightarrow> formatNum ts (Num y) (Some d) = Inl RangeError"
    by (auto simp add: formatNum_def isNaN_def toFixed_def)
  from a b c dflt fin inf range show ?thesis by blast
qed

lemma frac_digits_rec:
  "0 < f \<Longrightarrow> frac_digits f r = frac_digits (f - 1) (r div 10) @ [digit_char (r mod 10)]"
  by (cases f) simp_all

lemma render_half: "fixed_point_comma (1 / 2) 3 = ''0,500''"
  by (simp add: fixed_point_comma_def dec.simps digit_chars frac_digits_rec)

lemma render_resistance: "fixed_point_comma (427731582256389 / 35184372088832) 4 = ''12,1569''"
  by (simp add: fixed_point_comma_def dec.simps digit_chars frac_digits_rec)

lemma render_negative: "fixed_point_comma (- (5 / 4)) (Suc 0) = ''-1,3''"
  by (simp add: fixed_point_comma_def dec.simps digit_chars)

lemma render_integer: "fixed_point_comma (5 / 2) 0 = ''3''"
  by (simp add: fixed_point_comma_def dec.simps digit_chars)

theorem formatNum_spec_witness:
  "formatNum (\<lambda>r. []) (Num (Fin (1 / 2))) None = Inr ''0,500''
   \<and> formatNum (\<lambda>r. []) (Num (Fin (427731582256389 / 35184372088832))) (Some 4) = Inr ''12,1569''
   \<and> formatNum (\<lambda>r. []) (Num (Fin (- 5 / 4))) (Some 1) = Inr ''-1,3''
   \<and> formatNum (\<lambda>r. []) (Num (Fin (5 / 2))) (Some 0) = Inr ''3''
   \<and> formatNum (\<lambda>r. []) (Num PInf) (Some 2) = Inr ''Infinity''
   \<and> formatNum (\<lambda>r. []) (Num (Fin 1)) (Some (- 1)) = Inl RangeError"
proof -
  have a: "formatNum (\<lambda>r. []) (Num (Fin (1 / 2))) None = Inr ''0,500''"
    using formatNum_spec [where ts = "\<lambda>r. []" and v = "Num (Fin (1 / 2))" and d = 3 and x = "1 / 2"]
    by (simp add: render_half)
  have b: "formatNum (\<lambda>r. []) (Num (Fin (427731582256389 / 35184372088832))) (Some 4)
      = Inr ''12,1569''"
    using formatNum_spec [where ts = "\<lambda>r. []" and d = 4 and x = "427731582256389 / 35184372088832"]
    by (simp add: render_resistance)
  have c: "formatNum (\<lambda>r. []) (Num (Fin (- 5 / 4))) (Some 1) = Inr ''-1,3''"
    using formatNum_spec [where ts = "\<lambda>r. []" and d = 1 and x = "- 5 / 4"]
    by (simp add: render_negative)
  have d: "formatNum (\<lambda>r. []) (Num (Fin (5 / 2))) (Some 0) = Inr ''3''"
    using formatNum_spec [where ts = "\<lambda>r. []" and d = 0 and x = "5 / 2"]
    by (simp add: render_integer)
  have e: "formatNum (\<lambda>r. []) (Num PInf) (Some 2) = Inr ''Infinity''"
    using formatNum_spec [where ts = "\<lambda>r. []" and d = 2] by simp
  have f: "formatNum (\<lambda>r. []) (Num (Fin 1)) (Some (- 1)) = Inl RangeError"
    using formatNum_spec [where ts = "\<lambda>r. []" and d = "- 1" and y = "Fin 1"] by simp
  from a b c d e f show ?thesis by blast
qed

text \<open>
  Claim C9 as stated fails: an infinity passes the \<open>isNaN\<close> test and is rendered by its
  name, and a decimal count above 100 raises.
\<close>

theorem formatNum_counterexample:
  "formatNum (\<lambda>r. []) (Num PInf) None = Inr ''Infinity''
   \<and> formatNum (\<lambda>r. []) (Num NInf) (Some 2) = Inr ''-Infinity''
   \<and> formatNum (\<lambda>r. []) (Num (Fin 1)) (Some 101) = Inl RangeError"
  by (simp add: formatNum_def isNaN_def toFixed_def)

section \<open>PersistenceController: one write per burst\<close>

lemmas handler_defs =
  setActiveTab_def setTapRange_def handleInputChange_def handleTgDeltaChange_def
  addTgDeltaRow_def removeTgDeltaRow_def handleInsulationChange_def addInsulationRow_def
  removeInsulationRow_def setHeaderInfo_def setResistanceSettings_def generateId_def

lemma perform_isSaving:
  "perform a g (ed\<lparr>isSaving := b\<rparr>) = ((fst (perform a g ed))\<lparr>isSaving := b\<rparr>, snd (perform a g ed))"
  by (cases a) (simp_all add: handler_defs Let_def)

lemma perform_all_isSaving:
  "perform_all as g (ed\<lparr>isSaving := b\<rparr>)
     = ((fst (perform_all as g ed))\<lparr>isSaving := b\<rparr>, snd (perform_all as g ed))"
proof (induction as arbitrary: g ed)
  case Nil
  show ?case by simp
next
  case (Cons a as)
  show ?case
    by (simp add: perform_isSaving Cons.IH split_beta)
qed

lemma perform_unchanged:
  "\<not> changes_dependency a ed \<Longrightarrow> sheet.truncate (fst (perform a g ed)) = sheet.truncate ed"
  by (cases a)
     (simp_all add: setActiveTab_def setTapRange_def removeTgDeltaRow_def removeInsulationRow_def
        sheet.truncate_def)

lemma exec_Act:
  "exec (Act t a) s = Some s1 \<longleftrightarrow>
     mounted s \<and> clock s \<le> t \<and>
     s1 = (let s2 = s\<lparr>clock := t, editor_state := fst (perform a (gen (app_state s)) (editor_state s)),
                      app_state := (app_state s)\<lparr>gen := snd (perform a (gen (app_state s)) (editor_state s))\<rparr>\<rparr>
           in if changes_dependency a (editor_state s) then run_effect t s2 else s2)"
  by (auto simp add: Let_def split_beta)

lemma exec_Fire:
  "exec (Fire t) s = Some s1 \<longleftrightarrow>
     (\<exists>due p. pending s = Some (due, p) \<and> mounted s \<and> clock s \<le> t \<and> due \<le> t \<and>
        s1 = s\<lparr>clock := t, pending := None,
               app_state := handleUpdateProject p (app_state s),
               editor_state := (editor_state s)\<lparr>isSaving := False\<rparr>\<rparr>)"
  by (auto split: option.splits)

lemma exec_Back:
  "exec (Back t) s = Some s1 \<longleftrightarrow>
     mounted s \<and> clock s \<le> t \<and>
     s1 = s\<lparr>clock := t, pending := None, mounted := False,
            app_state := (app_state s)\<lparr>activeProjectId := None\<rparr>\<rparr>"
  by auto

lemma handleUpdateProject_frame:
  "user (handleUpdateProject p a) = user a"
  "gen (handleUpdateProject p a) = gen a"
  "setDocs (handleUpdateProject p a)
     = setDocs a @ (case user a of None \<Rightarrow> [] | Some uid \<Rightarrow> [(uid, project_id p, p)])"
  by (simp_all add: handleUpdateProject_def split: option.splits)

lemma exec_frame:
  assumes "exec ev s = Some s1"
  shows "user (app_state s1) = user (app_state s)"
    and "opened s1 = opened s"
    and "clock s \<le> clock s1"
    and "mounted s"
  using assms
  by (cases ev; simp only: exec_Act exec_Fire exec_Back;
      auto simp add: Let_def run_effect_def handleUpdateProject_frame)+

lemma run_append:
  "run (xs @ ys) s = (case run xs s of None \<Rightarrow> None | Some s1 \<Rightarrow> run ys s1)"
  by (induction xs arbitrary: s) (simp_all split: option.splits)

lemma run_unmounted:
  assumes "run es s = Some s'" and "\<not> mounted s"
  shows "es = []"
proof (cases es)
  case Nil
  then show ?thesis .
next
  case (Cons ev es')
  with assms(1) obtain s1 where "exec ev s = Some s1"
    by (auto split: option.splits)
  from exec_frame(4) [OF this] assms(2) show ?thesis by simp
qed

lemma run_frame:
  assumes "run es s = Some s'"
  shows "user (app_state s') = user (app_state s) \<and> opened s' = opened s \<and> clock s \<le> clock s'"
  using assms
proof (induction es arbitrary: s)
  case Nil
  then show ?case by simp
next
  case (Cons ev es)
  from Cons.prems obtain s1 where e: "exec ev s = Some s1" and r: "run es s1 = Some s'"
    by (auto split: option.splits)
  from Cons.IH [OF r] exec_frame(1-3) [OF e] show ?case by simp
qed

lemma mutation_times_Cons:
  assumes "exec ev s = Some s1"
  shows "mutation_times (ev # es) s
    = (case ev of Act t a \<Rightarrow> (if changes_dependency a (editor_state s) then [t] else []) | _ \<Rightarrow> [])
      @ mutation_times es s1"
  using assms by (cases ev) (simp_all del: exec.simps)

lemma mutation_times_clock:
  assumes "run es s = Some s'"
  shows "\<forall>t \<in> set (mutation_times es s). clock s \<le> t"
  using assms
proof (induction es arbitrary: s)
  case Nil
  then show ?case by simp
next
  case (Cons ev es)
  from Cons.prems obtain s1 where e: "exec ev s = Some s1" and r: "run es s1 = Some s'"
    by (auto split: option.splits)
  have c: "clock s \<le> clock s1" by (rule exec_frame(3) [OF e])
  have here: "\<forall>t \<in> set (case ev of Act t a \<Rightarrow> (if changes_dependency a (editor_state s) then [t] else []) | _ \<Rightarrow> []). clock s \<le> t"
    using e by (cases ev) (auto simp add: exec_Act simp del: exec.simps)
  from Cons.IH [OF r] c here show ?case
    unfolding mutation_times_Cons [OF e] by fastforce
qed

lemma run_idle:
  assumes "run es s = Some s'" and "pending s = None" and "mutation_times es s = []"
  shows "fire_times es = [] \<and> setDocs (app_state s') = setDocs (app_state s) \<and> pending s' = None
         \<and> sheet.truncate (editor_state s') = sheet.truncate (editor_state s)"
  using assms
proof (induction es arbitrary: s)
  case Nil
  then show ?case by simp
next
  case (Cons ev es)
  from Cons.prems(1) obtain s1 where e: "exec ev s = Some s1" and r: "run es s1 = Some s'"
    by (auto split: option.splits)
  from Cons.prems(3) have m: "mutation_times es s1 = []"
    and here: "(case ev of Act t a \<Rightarrow> (if changes_dependency a (editor_state s) then [t] else []) | _ \<Rightarrow> []) = []"
    unfolding mutation_times_Cons [OF e] by simp_all
  show ?case
  proof (cases ev)
    case (Act t a)
    with here have n: "\<not> changes_dependency a (editor_state s)"
      by (simp split: if_splits)
    from e Act n have s1: "pending s1 = pending s" "setDocs (app_state s1) = setDocs (app_state s)"
      "editor_state s1 = fst (perform a (gen (app_state s)) (editor_state s))"
      by (simp_all only: exec_Act Let_def if_False) simp_all
    from Cons.IH [OF r _ m] s1 Cons.prems(2) perform_unchanged [OF n] Act
    show ?thesis by simp
  next
    case (Fire t)
    with e Cons.prems(2) show ?thesis by (simp only: exec_Fire) simp
  next
    case (Back t)
    from e Back have s1: "pending s1 = None" "setDocs (app_state s1) = setDocs (app_state s)"
      "editor_state s1 = editor_state s"
      by (simp_all only: exec_Back) simp_all
    from Cons.IH [OF r s1(1) m] s1 Back show ?thesis by simp
  qed
qed

lemma burst_head:
  "burst t ts \<Longrightarrow> \<forall>u \<in> set ts. t + 1000 \<le> u \<Longrightarrow> ts = []"
  by (cases ts) auto

lemma run_pending:
  assumes "run es s = Some s'"
    and "mounted s"
    and "pending s = Some (t + 1000, doc)"
    and "sheet.truncate doc = sheet.truncate (editor_state s)"
    and "project_id doc = project_id (opened s)"
    and "lastModified doc = t"
    and "burst t (mutation_times es s)"
  shows "\<exists>doc'. sheet.truncate doc' = sheet.truncate (editor_state s')
           \<and> project_id doc' = project_id (opened s)
           \<and> lastModified doc' = last (t # mutation_times es s)
           \<and> (case fire_times es of
                [] \<Rightarrow> setDocs (app_state s') = setDocs (app_state s)
                     \<and> pending s' = (if mounted s'
                                     then Some (last (t # mutation_times es s) + 1000, doc')
                                     else None)
              | [T] \<Rightarrow> last (t # mutation_times es s) + 1000 \<le> T \<and> pending s' = None
                     \<and> setDocs (app_state s')
                         = setDocs (app_state s)
                           @ (case user (app_state s) of
                                None \<Rightarrow> []
                              | Some uid \<Rightarrow> [(uid, project_id (opened s), doc')])
              | _ \<Rightarrow> False)"
  using assms
proof (induction es arbitrary: s t doc)
  case Nil
  then show ?case by simp
next
  case (Cons ev es)
  from Cons.prems(1) obtain s1 where e: "exec ev s = Some s1" and r: "run es s1 = Some s'"
    by (auto split: option.splits)
  note mt = mutation_times_Cons [OF e, of es]
  have o: "opened s1 = opened s" and u: "user (app_state s1) = user (app_state s)"
    using exec_frame [OF e] by simp_all
  show ?case
  proof (cases ev)
    case (Act t1 a)
    show ?thesis
    proof (cases "changes_dependency a (editor_state s)")
      case True
      with mt Act have m: "mutation_times (ev # es) s = t1 # mutation_times es s1"
        by simp
      with Cons.prems(7) have b: "burst t1 (mutation_times es s1)"
        by simp
      define ed where "ed = fst (perform a (gen (app_state s)) (editor_state s))"
      from e Act True have s1: "mounted s1" "setDocs (app_state s1) = setDocs (app_state s)"
        "pending s1 = Some (t1 + 1000, updatedProject (opened s) ed t1)"
        "sheet.truncate (editor_state s1) = sheet.truncate ed"
        by (simp_all only: exec_Act Let_def if_True ed_def)
           (simp_all add: run_effect_def sheet.truncate_def)
      have d: "sheet.truncate (updatedProject (opened s) ed t1) = sheet.truncate (editor_state s1)"
        "project_id (updatedProject (opened s) ed t1) = project_id (opened s1)"
        "lastModified (updatedProject (opened s) ed t1) = t1"
        unfolding s1(4) o by (simp_all add: updatedProject_def sheet.truncate_def)
      have l: "last (t # mutation_times (ev # es) s) = last (t1 # mutation_times es s1)"
        unfolding m by simp
      have f: "fire_times (ev # es) = fire_times es"
        using Act by simp
      from Cons.IH [OF r s1(1) s1(3) d b] show ?thesis
        unfolding l f o u s1(2) .
    next
      case False
      with mt Act have m: "mutation_times (ev # es) s = mutation_times es s1"
        by simp
      with Cons.prems(7) have b: "burst t (mutation_times es s1)"
        by simp
      from e Act False have s1: "mounted s1" "setDocs (app_state s1) = setDocs (app_state s)"
        "pending s1 = pending s"
        "editor_state s1 = fst (perform a (gen (app_state s)) (editor_state s))"
        using Cons.prems(2) by (simp_all only: exec_Act Let_def if_False) simp_all
      have d: "sheet.truncate doc = sheet.truncate (editor_state s1)"
        "project_id doc = project_id (opened s1)"
        unfolding s1(4) o perform_unchanged [OF False] by (rule Cons.prems)+
      have p: "pending s1 = Some (t + 1000, doc)"
        using s1(3) Cons.prems(3) by simp
      have f: "fire_times (ev # es) = fire_times es"
        using Act by simp
      from Cons.IH [OF r s1(1) p d Cons.prems(6) b] show ?thesis
        unfolding m f o u s1(2) .
    qed
  next
    case (Fire T)
    from e Fire Cons.prems(3) have due: "t + 1000 \<le> T"
      and s1: "pending s1 = None" "clock s1 = T"
        "setDocs (app_state s1) = setDocs (app_state s)
            @ (case user (app_state s) of None \<Rightarrow> [] | Some uid \<Rightarrow> [(uid, project_id doc, doc)])"
        "editor_state s1 = (editor_state s)\<lparr>isSaving := False\<rparr>"
      by (simp_all only: exec_Fire) (auto simp add: handleUpdateProject_frame)
    from mt Fire have m: "mutation_times (ev # es) s = mutation_times es s1"
      by simp
    from mutation_times_clock [OF r] s1(2) due
    have "\<forall>u \<in> set (mutation_times es s1). t + 1000 \<le> u"
      by auto
    with Cons.prems(7) have none: "mutation_times es s1 = []"
      unfolding m by (rule burst_head)
    from run_idle [OF r s1(1) none]
    have idle: "fire_times es = []" "setDocs (app_state s') = setDocs (app_state s1)"
      "pending s' = None" "sheet.truncate (editor_state s') = sheet.truncate (editor_state s1)"
      by simp_all
    have tr: "sheet.truncate (editor_state s1) = sheet.truncate (editor_state s)"
      unfolding s1(4) by (simp add: sheet.truncate_def)
    have l: "last (t # mutation_times (ev # es) s) = t"
      unfolding m none by simp
    have f: "fire_times (ev # es) = [T]"
      using Fire idle(1) by simp
    show ?thesis
      unfolding l f
      apply (rule exI [of _ doc])
      using idle(2-4) s1(3) tr due Cons.prems(4-6)
      apply (simp split: option.splits)
      done
  next
    case (Back T)
    from e Back have s1: "\<not> mounted s1" "pending s1 = None"
      "setDocs (app_state s1) = setDocs (app_state s)" "editor_state s1 = editor_state s"
      by (simp_all only: exec_Back) simp_all
    from run_unmounted [OF r s1(1)] have nil: "es = []" .
    with r have s': "s' = s1" by simp
    have l: "last (t # mutation_times (ev # es) s) = t"
      unfolding mt nil using Back by simp
    have f: "fire_times (ev # es) = []"
      using Back nil by simp
    show ?thesis
      unfolding l f s'
      apply (rule exI [of _ doc])
      using s1 Cons.prems(4-6)
      apply simp
      done
  qed
qed

lemma run_editor:
  assumes "run es s = Some s'"
  shows "(editor_state s')\<lparr>isSaving := b\<rparr>
           = (fst (perform_all (acts es) (gen (app_state s)) (editor_state s)))\<lparr>isSaving := b\<rparr>
         \<and> gen (app_state s') = snd (perform_all (acts es) (gen (app_state s)) (editor_state s))"
  using assms
proof (induction es arbitrary: s)
  case Nil
  then show ?case by simp
next
  case (Cons ev es)
  from Cons.prems(1) obtain s1 where e: "exec ev s = Some s1" and r: "run es s1 = Some s'"
    by (auto split: option.splits)
  note ih = Cons.IH [OF r]
  show ?case
  proof (cases ev)
    case (Act t a)
    define ed where "ed = fst (perform a (gen (app_state s)) (editor_state s))"
    define g where "g = snd (perform a (gen (app_state s)) (editor_state s))"
    from e Act have "gen (app_state s1) = g"
      and "editor_state s1 = ed \<or> editor_state s1 = ed\<lparr>isSaving := True\<rparr>"
      by (simp_all only: exec_Act Let_def ed_def g_def)
         (auto simp add: run_effect_def)
    with ih Act show ?thesis
      by (auto simp add: split_beta perform_all_isSaving ed_def g_def)
  next
    case (Fire t)
    from e Fire have "gen (app_state s1) = gen (app_state s)"
      and "editor_state s1 = (editor_state s)\<lparr>isSaving := False\<rparr>"
      by (simp_all only: exec_Fire) (auto simp add: handleUpdateProject_frame)
    with ih Fire show ?thesis
      by (simp add: perform_all_isSaving)
  next
    case (Back t)
    from e Back have "gen (app_state s1) = gen (app_state s)"
      and "editor_state s1 = editor_state s"
      by (simp_all only: exec_Back) simp_all
    with ih Back show ?thesis
      by simp
  qed
qed


lemma truncate_isSaving:
  "sheet.truncate (ed\<lparr>isSaving := b\<rparr>) = sheet.truncate (ed :: editor)"
  by (simp add: sheet.truncate_def)

lemma project_eqI:
  assumes "sheet.truncate (d :: project) = sheet.truncate (ed :: editor)"
    and "project_id d = i" and "lastModified d = m"
  shows "d = \<lparr>tapRange = tapRange ed, data = data ed, tgDeltaData = tgDeltaData ed,
              insulationData = insulationData ed, headerInfo = headerInfo ed,
              resistanceSettings = resistanceSettings ed,
              project_id = i, lastModified = m\<rparr>"
  using assms by (cases d) (simp add: sheet.truncate_def)

lemma unmounted_stuck:
  "\<not> mounted s \<Longrightarrow> exec ev s = None"
  by (cases ev) (simp_all split: option.splits)

lemmas session_defs =
  example_session_def example_project_def example_app_def mount_def init_editor_def
  run_effect_def updatedProject_def handleUpdateProject_def handler_defs has_id_def
  rowData_def numericFields_def Let_def

lemma example_session_eq:
  "example_session =
     \<lparr>app_state = \<lparr>user = Some ''u1'', activeProjectId = Some ''p1'',
                    gen = \<lparr>draws = (\<lambda>k. ''x''), drawn = 0\<rparr>, setDocs = []\<rparr>,
      opened = example_project,
      editor_state =
        \<lparr>tapRange = 5, data = [], tgDeltaData = [], insulationData = [],
         headerInfo = \<lparr>manufacturingNumber = [], serialNumber = [], client = [], date = 0\<rparr>,
         resistanceSettings = \<lparr>measuredTemp = ''20'', refTemp = ''75'',
           conn1Name = [], conn2Name = [], conn3Name = []\<rparr>,
         activeTab = ''ttr'', isSaving = True\<rparr>,
      pending = Some (1000, example_project\<lparr>lastModified := 0\<rparr>),
      clock = 0, mounted = True\<rparr>"
  by (simp add: session_defs)

text \<open>
  Opening a project starts the timer as a mutation does: with no action at all, the
  callback writes the project as the editor initialised it.
\<close>

lemma mount_writes:
  assumes "user a = Some uid"
  shows "\<exists>s'. run [Fire (now + 1000)] (mount now p a) = Some s'
           \<and> setDocs (app_state s')
               = setDocs a @ [(uid, project_id p, updatedProject p (init_editor p) now)]"
  using assms
  by (simp add: mount_def run_effect_def handleUpdateProject_def updatedProject_def)

text \<open>
  Claim C5, as amended. A burst starts with a mutation at time \<open>t1\<close> in any state of an
  open editor, and every later mutation follows the one before it by less than 1000 ms.
  Whatever else happens in the run (actions that change no dependency, the callback of the
  timeout, leaving the editor), the callback runs at most once, and not before 1000 ms
  after the last mutation. The state of the editor is the one that the actions produce in
  order. As long as the callback has not run, no \<^verbatim>\<open>setDoc\<close> has been issued; if the editor
  is still open, the timeout is pending with the document below, and the callback can run
  at every later time from 1000 ms after the last mutation on, issuing the write; if the
  editor has been left, the timeout is cleared and no event can happen any more. Once the
  callback has run, exactly one \<^verbatim>\<open>setDoc\<close> has been issued if a user is signed in, and none
  otherwise. The document written holds the six pieces of the final state, the id of the
  opened project, and the time of the last mutation as \<^verbatim>\<open>lastModified\<close>; it is written
  under the user's uid and the project's id.
\<close>

theorem debounce_single_write:
  assumes "run (Act t1 a1 # es) s0 = Some s'"
    and "changes_dependency a1 (editor_state s0)"
    and "burst t1 (tl (mutation_times (Act t1 a1 # es) s0))"
  shows "let t_last = last (mutation_times (Act t1 a1 # es) s0);
             final = fst (perform_all (acts (Act t1 a1 # es)) (gen (app_state s0)) (editor_state s0));
             doc = \<lparr>tapRange = tapRange final, data = data final,
                    tgDeltaData = tgDeltaData final, insulationData = insulationData final,
                    headerInfo = headerInfo final, resistanceSettings = resistanceSettings final,
                    project_id = project_id (opened s0), lastModified = t_last\<rparr>;
             written = (case user (app_state s0) of
                          None \<Rightarrow> []
                        | Some uid \<Rightarrow> [(uid, project_id (opened s0), doc)])
         in (editor_state s')\<lparr>isSaving := False\<rparr> = final\<lparr>isSaving := False\<rparr>
          \<and> t1 \<le> t_last
          \<and> (case fire_times es of
                [] \<Rightarrow> setDocs (app_state s') = setDocs (app_state s0)
                     \<and> pending s' = (if mounted s' then Some (t_last + 1000, doc) else None)
                     \<and> (mounted s' \<or> (\<forall>ev. exec ev s' = None))
                     \<and> (\<forall>T. mounted s' \<and> clock s' \<le> T \<and> t_last + 1000 \<le> T \<longrightarrow>
                          (\<exists>s''. run (Act t1 a1 # es @ [Fire T]) s0 = Some s''
                              \<and> setDocs (app_state s'') = setDocs (app_state s0) @ written))
              | [T] \<Rightarrow> t_last + 1000 \<le> T \<and> pending s' = None
                     \<and> setDocs (app_state s') = setDocs (app_state s0) @ written
              | _ \<Rightarrow> False)"
proof -
  define evs where "evs = Act t1 a1 # es"
  define t_last where "t_last = last (mutation_times evs s0)"
  define final where
    "final = fst (perform_all (acts evs) (gen (app_state s0)) (editor_state s0))"
  define doc where
    "doc = \<lparr>tapRange = tapRange final, data = data final,
            tgDeltaData = tgDeltaData final, insulationData = insulationData final,
            headerInfo = headerInfo final, resistanceSettings = resistanceSettings final,
            project_id = project_id (opened s0), lastModified = t_last\<rparr>"
  define written where
    "written = (case user (app_state s0) of
                  None \<Rightarrow> []
                | Some uid \<Rightarrow> [(uid, project_id (opened s0), doc)])"
  from assms(1) obtain s1 where e: "exec (Act t1 a1) s0 = Some s1" and r: "run es s1 = Some s'"
    by (auto split: option.splits)
  have m: "mutation_times evs s0 = t1 # mutation_times es s1"
    unfolding evs_def mutation_times_Cons [OF e] using assms(2) by simp
  from assms(3) have b: "burst t1 (mutation_times es s1)"
    unfolding evs_def [symmetric] m by simp
  have o: "opened s1 = opened s0" and u: "user (app_state s1) = user (app_state s0)"
    using exec_frame [OF e] by simp_all
  define ed where "ed = fst (perform a1 (gen (app_state s0)) (editor_state s0))"
  from e assms(2) have s1: "mounted s1" "setDocs (app_state s1) = setDocs (app_state s0)"
    "pending s1 = Some (t1 + 1000, updatedProject (opened s0) ed t1)"
    "sheet.truncate (editor_state s1) = sheet.truncate ed"
    by (simp_all only: exec_Act Let_def if_True ed_def)
       (simp_all add: run_effect_def sheet.truncate_def)
  have d: "sheet.truncate (updatedProject (opened s0) ed t1) = sheet.truncate (editor_state s1)"
    "project_id (updatedProject (opened s0) ed t1) = project_id (opened s1)"
    "lastModified (updatedProject (opened s0) ed t1) = t1"
    unfolding s1(4) o by (simp_all add: updatedProject_def sheet.truncate_def)
  from run_pending [OF r s1(1) s1(3) d b]
  obtain doc' where d1: "sheet.truncate doc' = sheet.truncate (editor_state s')"
    and d2: "project_id doc' = project_id (opened s0)"
    and d3: "lastModified doc' = t_last"
    and c: "case fire_times es of
              [] \<Rightarrow> setDocs (app_state s') = setDocs (app_state s0)
                   \<and> pending s' = (if mounted s' then Some (t_last + 1000, doc') else None)
            | [T] \<Rightarrow> t_last + 1000 \<le> T \<and> pending s' = None
                   \<and> setDocs (app_state s')
                       = setDocs (app_state s0)
                         @ (case user (app_state s0) of
                              None \<Rightarrow> []
                            | Some uid \<Rightarrow> [(uid, project_id (opened s0), doc')])
            | _ \<Rightarrow> False"
    unfolding o u s1(2) t_last_def m by blast
  from run_editor [OF assms(1), of False]
  have fin: "(editor_state s')\<lparr>isSaving := False\<rparr> = final\<lparr>isSaving := False\<rparr>"
    unfolding final_def evs_def by simp
  have "sheet.truncate (editor_state s') = sheet.truncate ((editor_state s')\<lparr>isSaving := False\<rparr>)"
    by (simp only: truncate_isSaving)
  also have "\<dots> = sheet.truncate final"
    unfolding fin by (simp only: truncate_isSaving)
  finally have tf: "sheet.truncate (editor_state s') = sheet.truncate final" .
  have doc': "doc' = doc"
    unfolding doc_def by (rule project_eqI) (simp_all only: d1 tf d2 d3)
  note c = c [unfolded doc' written_def [symmetric]]
  have mono: "t1 \<le> t_last"
  proof -
    have "burst t ts \<Longrightarrow> t \<le> last (t # ts)" for t :: nat and ts
      by (induction ts arbitrary: t) force+
    from this [OF b] show ?thesis
      unfolding t_last_def m .
  qed
  have stuck: "mounted s' \<or> (\<forall>ev. exec ev s' = None)"
    using unmounted_stuck by blast
  have progress: "\<exists>s''. run (evs @ [Fire T]) s0 = Some s''
                     \<and> setDocs (app_state s'') = setDocs (app_state s0) @ written"
    if nf: "fire_times es = []" and T: "mounted s'" "clock s' \<le> T" "t_last + 1000 \<le> T" for T
  proof -
    from c nf T(1) have p: "pending s' = Some (t_last + 1000, doc)"
      and sd: "setDocs (app_state s') = setDocs (app_state s0)"
      by simp_all
    have us: "user (app_state s') = user (app_state s0)"
      using run_frame [OF assms(1)] by simp
    define s'' where
      "s'' = s'\<lparr>clock := T, pending := None,
                app_state := handleUpdateProject doc (app_state s'),
                editor_state := (editor_state s')\<lparr>isSaving := False\<rparr>\<rparr>"
    have "exec (Fire T) s' = Some s''"
      unfolding exec_Fire s''_def using p T by simp
    then have "run (evs @ [Fire T]) s0 = Some s''"
      unfolding run_append evs_def assms(1) by simp
    moreover have "setDocs (app_state s'') = setDocs (app_state s0) @ written"
    proof -
      have "project_id doc = project_id (opened s0)"
        unfolding doc_def by simp
      then show ?thesis
        unfolding s''_def written_def
        by (simp add: handleUpdateProject_frame sd us split: option.splits)
    qed
    ultimately show ?thesis by blast
  qed
  have main: "(editor_state s')\<lparr>isSaving := False\<rparr> = final\<lparr>isSaving := False\<rparr>
          \<and> t1 \<le> t_last
          \<and> (case fire_times es of
                [] \<Rightarrow> setDocs (app_state s') = setDocs (app_state s0)
                     \<and> pending s' = (if mounted s' then Some (t_last + 1000, doc) else None)
                     \<and> (mounted s' \<or> (\<forall>ev. exec ev s' = None))
                     \<and> (\<forall>T. mounted s' \<and> clock s' \<le> T \<and> t_last + 1000 \<le> T \<longrightarrow>
                          (\<exists>s''. run (evs @ [Fire T]) s0 = Some s''
                              \<and> setDocs (app_state s'') = setDocs (app_state s0) @ written))
              | [T] \<Rightarrow> t_last + 1000 \<le> T \<and> pending s' = None
                     \<and> setDocs (app_state s') = setDocs (app_state s0) @ written
              | _ \<Rightarrow> False)"
  proof (intro conjI)
    show "(editor_state s')\<lparr>isSaving := False\<rparr> = final\<lparr>isSaving := False\<rparr>" by (rule fin)
    show "t1 \<le> t_last" by (rule mono)
    show "case fire_times es of
                [] \<Rightarrow> setDocs (app_state s') = setDocs (app_state s0)
                     \<and> pending s' = (if mounted s' then Some (t_last + 1000, doc) else None)
                     \<and> (mounted s' \<or> (\<forall>ev. exec ev s' = None))
                     \<and> (\<forall>T. mounted s' \<and> clock s' \<le> T \<and> t_last + 1000 \<le> T \<longrightarrow>
                          (\<exists>s''. run (evs @ [Fire T]) s0 = Some s''
                              \<and> setDocs (app_state s'') = setDocs (app_state s0) @ written))
              | [T] \<Rightarrow> t_last + 1000 \<le> T \<and> pending s' = None
                     \<and> setDocs (app_state s') = setDocs (app_state s0) @ written
              | _ \<Rightarrow> False"
    proof (cases "fire_times es")
      case Nil
      with c stuck progress show ?thesis by simp
    next
      case (Cons T ts)
      with c show ?thesis by (cases ts) simp_all
    qed
  qed
  show ?thesis
    unfolding Let_def
    using main
    unfolding evs_def t_last_def final_def doc_def written_def evs_def append_Cons
    .
qed


theorem debounce_single_write_witness:
  "changes_dependency (SetTapRange 2) (editor_state example_session)
   \<and> mutation_times
        [Act 100 (SetTapRange 2), Act 600 (InputChange ''pos-1'' ''phaseA'' ''1.5''),
         Act 900 (SetActiveTab ''tgdelta''), Act 1599 AddTgDeltaRow,
         Act 2000 (RemoveTgDeltaRow ''x'' False), Fire 2600] example_session
       = [100, 600, 1599]
   \<and> burst 100 [600, 1599]
   \<and> (\<exists>s'. run [Act 100 (SetTapRange 2), Act 600 (InputChange ''pos-1'' ''phaseA'' ''1.5''),
                Act 900 (SetActiveTab ''tgdelta''), Act 1599 AddTgDeltaRow,
                Act 2000 (RemoveTgDeltaRow ''x'' False), Fire 2600] example_session = Some s'
          \<and> pending s' = None
          \<and> activeTab (editor_state s') = ''tgdelta''
          \<and> setDocs (app_state s')
              = [(''u1'', ''p1'',
                  \<lparr>tapRange = 2, data = [(''pos-1'', [(''phaseA'', ''1,5'')])],
                   tgDeltaData = [[(''id'', ''x'')]], insulationData = [],
                   headerInfo = \<lparr>manufacturingNumber = [], serialNumber = [], client = [],
                                 date = 0\<rparr>,
                   resistanceSettings = \<lparr>measuredTemp = ''20'', refTemp = ''75'',
                     conn1Name = [], conn2Name = [], conn3Name = []\<rparr>,
                   project_id = ''p1'', lastModified = 1599\<rparr>)])"
proof -
  let ?es = "[Act 600 (InputChange ''pos-1'' ''phaseA'' ''1.5''),
              Act 900 (SetActiveTab ''tgdelta''), Act 1599 AddTgDeltaRow,
              Act 2000 (RemoveTgDeltaRow ''x'' False), Fire 2600]"
  have c: "changes_dependency (SetTapRange 2) (editor_state example_session)"
    by (simp add: example_session_eq)
  have m: "mutation_times (Act 100 (SetTapRange 2) # ?es) example_session = [100, 600, 1599]"
    by (simp add: example_session_eq example_project_def run_effect_def updatedProject_def
          handler_defs rowData_def Let_def)
  have b: "burst 100 (tl (mutation_times (Act 100 (SetTapRange 2) # ?es) example_session))"
    unfolding m by simp
  have "\<exists>s'. run (Act 100 (SetTapRange 2) # ?es) example_session = Some s'"
    by (simp add: example_session_eq example_project_def run_effect_def updatedProject_def
          handleUpdateProject_def handler_defs rowData_def Let_def)
  then obtain s' where r: "run (Act 100 (SetTapRange 2) # ?es) example_session = Some s'"
    by blast
  have f: "perform_all (acts (Act 100 (SetTapRange 2) # ?es))
             (gen (app_state example_session)) (editor_state example_session)
           = (\<lparr>tapRange = 2, data = [(''pos-1'', [(''phaseA'', ''1,5'')])],
                tgDeltaData = [[(''id'', ''x'')]], insulationData = [],
                headerInfo = \<lparr>manufacturingNumber = [], serialNumber = [], client = [],
                              date = 0\<rparr>,
                resistanceSettings = \<lparr>measuredTemp = ''20'', refTemp = ''75'',
                  conn1Name = [], conn2Name = [], conn3Name = []\<rparr>,
                activeTab = ''tgdelta'', isSaving = True\<rparr>,
              \<lparr>draws = (\<lambda>k. ''x''), drawn = 1\<rparr>)"
    by (simp add: example_session_eq handler_defs rowData_def Let_def)
  have u: "user (app_state example_session) = Some ''u1''"
    "project_id (opened example_session) = ''p1''"
    "setDocs (app_state example_session) = []"
    by (simp_all add: example_session_eq example_project_def)
  have ft: "fire_times ?es = [2600]"
    by simp
  from debounce_single_write [OF r c b]
  have "(editor_state s')\<lparr>isSaving := False\<rparr>
          = (fst (perform_all (acts (Act 100 (SetTapRange 2) # ?es))
                    (gen (app_state example_session)) (editor_state example_session)))
            \<lparr>isSaving := False\<rparr>"
    and "pending s' = None"
    and "setDocs (app_state s')
          = [(''u1'', ''p1'',
              \<lparr>tapRange = 2, data = [(''pos-1'', [(''phaseA'', ''1,5'')])],
               tgDeltaData = [[(''id'', ''x'')]], insulationData = [],
               headerInfo = \<lparr>manufacturingNumber = [], serialNumber = [], client = [],
                             date = 0\<rparr>,
               resistanceSettings = \<lparr>measuredTemp = ''20'', refTemp = ''75'',
                 conn1Name = [], conn2Name = [], conn3Name = []\<rparr>,
               project_id = ''p1'', lastModified = 1599\<rparr>)]"
    unfolding Let_def m ft f u by simp_all
  then have "pending s' = None \<and> activeTab (editor_state s') = ''tgdelta''
      \<and> setDocs (app_state s')
          = [(''u1'', ''p1'',
              \<lparr>tapRange = 2, data = [(''pos-1'', [(''phaseA'', ''1,5'')])],
               tgDeltaData = [[(''id'', ''x'')]], insulationData = [],
               headerInfo = \<lparr>manufacturingNumber = [], serialNumber = [], client = [],
                             date = 0\<rparr>,
               resistanceSettings = \<lparr>measuredTemp = ''20'', refTemp = ''75'',
                 conn1Name = [], conn2Name = [], conn3Name = []\<rparr>,
               project_id = ''p1'', lastModified = 1599\<rparr>)]"
    unfolding f by (cases "editor_state s'") simp
  with r c m show ?thesis
    by (intro conjI exI [of _ s']) simp_all
qed


text \<open>
  Claim C5 as stated fails when the editor is left before the quiet period ends. User
  \<open>u1\<close> opens project \<open>p1\<close> at time 0, sets the tap range to 2 at 100 ms, types \<open>1.5\<close> into
  phase A of row \<open>pos-1\<close> at 600 ms and presses the back button at 900 ms. The two mutations
  are one burst and the editor holds both, but the cleanup of the effect has cleared the
  timeout: no \<^verbatim>\<open>setDoc\<close> has been issued, none is pending, and the callback cannot run
  later, so the burst is never written.
\<close>

theorem debounce_cancelled_counterexample:
  "mutation_times
     [Act 100 (SetTapRange 2), Act 600 (InputChange ''pos-1'' ''phaseA'' ''1.5''), Back 900]
     example_session = [100, 600]
   \<and> burst 100 [600]
   \<and> run [Act 100 (SetTapRange 2), Act 600 (InputChange ''pos-1'' ''phaseA'' ''1.5''), Back 900]
        example_session
      = Some \<lparr>app_state = example_app, opened = example_project,
              editor_state =
                \<lparr>tapRange = 2, data = [(''pos-1'', [(''phaseA'', ''1,5'')])],
                 tgDeltaData = [], insulationData = [],
                 headerInfo = headerInfo example_project,
                 resistanceSettings = resistanceSettings example_project,
                 activeTab = ''ttr'', isSaving = True\<rparr>,
              pending = None, clock = 900, mounted = False\<rparr>
   \<and> setDocs example_app = []
   \<and> run [Act 100 (SetTapRange 2), Act 600 (InputChange ''pos-1'' ''phaseA'' ''1.5''), Back 900,
           Fire 1600] example_session = None"
  by (simp add: example_session_eq example_project_def example_app_def run_effect_def
        updatedProject_def handler_defs rowData_def Let_def)

end
